theory Spec2Isabelle
  imports Main
begin

section \<open>The syntax tree handed over by the Go parser\<close>

text \<open>
  The generator works on the tree of \<^verbatim>\<open>go/ast\<close>.  The type expressions modelled are
  identifiers, qualified names, arrays and slices, pointers, function, interface, struct,
  map and channel types, variadic parameters and the literals of array lengths; type
  parameters, instantiated and parenthesised types are left out.  Each node has the
  children that \<^verbatim>\<open>ast.Walk\<close> visits, in the order in which it visits them.  Comments,
  positions and struct tags are left out: they are neither identifiers nor function
  types nor type declarations, so neither traversal of the generator looks at them.

  A \<^verbatim>\<open>*ast.FieldList\<close> is a pointer and may be nil: it is a \<open>field list option\<close>, with
  \<open>None\<close> for nil.  The parser stores nil in \<^verbatim>\<open>FuncType.Results\<close> for a signature
  without results, and a non-nil list (possibly empty) for \<^verbatim>\<open>()\<close>.  The entries of
  \<^verbatim>\<open>Field.Names\<close> are never nil in a parsed tree, so they are plain strings.
\<close>

datatype expr =
    Ident string
  | SelectorExpr expr string
  | ArrayType "expr option" expr
  | StarExpr expr
  | FuncType "ast_Field list option" "ast_Field list option"
  | InterfaceType "ast_Field list"
  | StructType "ast_Field list"
  | MapType expr expr
  | ChanType expr
  | Ellipsis "expr option"
  | BasicLit string
and ast_Field = ast_Field (Names: "string list") (Type_of: expr)

record TypeSpec =
  Name :: string
  Type :: expr

subsection \<open>The parsed file\<close>

text \<open>
  Declarations and the statements that can hold declarations.  Value expressions and
  function literals are not modelled, so a type declaration occurs at top level or in a
  function body, at any depth of blocks, and never below another type declaration.
  \<^verbatim>\<open>File.Imports\<close> is the list that the parser keeps beside the declarations.
\<close>

record ImportSpec =
  Name :: "string option"
  Path :: string

datatype spec =
    ImportSpecNode ImportSpec
  | ValueSpec "string list" "expr option"
  | TypeSpecNode TypeSpec

datatype decl =
    GenDecl "spec list"
  | FuncDecl "ast_Field list option" string expr "stmt list option"
and stmt =
    DeclStmt decl
  | BlockStmt "stmt list"
  | IfStmt "stmt list" "stmt option"
  | ForStmt "stmt list"
  | ReturnStmt

record File =
  Name :: string
  Decls :: "decl list"
  Imports :: "ImportSpec list"

section \<open>The intermediate representation\<close>

record Field =
  Name :: string
  Type :: string

record Method =
  Name :: string
  Input :: "Field list"
  Output :: "Field list"

text \<open>A run-time panic of the Go program: the two kinds the extraction can raise.\<close>

datatype panic = NilPointerDereference | InterfaceConversion

section \<open>The outside world, errors and outcomes\<close>

record Import =
  Path :: string
  Name :: string

record Output =
  GenPackage :: string
  ModelPath :: string
  Package :: string
  Struct :: string
  Imports :: "Import list"
  Methods :: "Method list"

record Opts =
  InputFile :: string
  TemplateFile :: string
  OutputFile :: string
  OutputPackage :: string
  Format :: bool

text \<open>
  What the libraries answer is a parameter of the model.  A library call that fails
  answers \<open>Inl\<close> with the message of its error.  \<open>os_Stat_regular p\<close> says that
  \<^verbatim>\<open>os.Stat\<close> succeeds on \<open>p\<close> and does not find a directory.  \<open>modfile_Parse\<close> answers the
  declared module path, or \<open>None\<close> when the file has no module directive (the field
  \<^verbatim>\<open>Module\<close> is then nil).  A parsed template is the function that executes it.
  \<open>defaultTpl\<close> is the embedded default template.
\<close>

record world =
  parser_ParseFile :: "string \<Rightarrow> string + File"
  strconv_Unquote :: "string \<Rightarrow> string + string"
  filepath_Abs :: "string \<Rightarrow> string + string"
  os_Stat_regular :: "string \<Rightarrow> bool"
  os_ReadFile :: "string \<Rightarrow> string + string"
  modfile_Parse :: "string \<Rightarrow> string \<Rightarrow> string + string option"
  template_Parse :: "string \<Rightarrow> string + (Output \<Rightarrow> string + string)"
  format_Source :: "string \<Rightarrow> string + string"
  os_WriteFile :: "string \<Rightarrow> string \<Rightarrow> string option"
  defaultTpl :: string

text \<open>
  Error values: the package's own \<^verbatim>\<open>ErrNoQuerier\<close>, an error made by \<^verbatim>\<open>errors.New\<close>,
  an error of a library, and an error wrapped by \<^verbatim>\<open>fmt.Errorf\<close> with \<^verbatim>\<open>%w\<close>.
\<close>

datatype error = ErrNoQuerier | New string | Lib string | Errorf string error

text \<open>
  How a call ends: it returns, or \<^verbatim>\<open>log.Fatal\<close> prints the error and exits the process
  with status 1 from inside the call, or the call panics.
\<close>

datatype 'a outcome = Returns 'a | LogFatal error | Panics panic

text \<open>
  How the process ends: \<open>Exit status logged by_main\<close> gives the exit status, the error
  that \<^verbatim>\<open>log.Fatal\<close> printed, and whether it was \<^verbatim>\<open>main\<close> that ended the process or a
  call below it; \<open>Crash\<close> is the end by an unrecovered panic.
\<close>

datatype process_end = Exit nat "error option" bool | Crash panic

section \<open>Type-reference renderer\<close>

text \<open>The text that the verb \<^verbatim>\<open>%T\<close> prints for a node: its dynamic Go type.\<close>

fun go_type_name :: "expr \<Rightarrow> string" where
  "go_type_name (Ident _) = ''*ast.Ident''"
| "go_type_name (SelectorExpr _ _) = ''*ast.SelectorExpr''"
| "go_type_name (ArrayType _ _) = ''*ast.ArrayType''"
| "go_type_name (StarExpr _) = ''*ast.StarExpr''"
| "go_type_name (FuncType _ _) = ''*ast.FuncType''"
| "go_type_name (InterfaceType _) = ''*ast.InterfaceType''"
| "go_type_name (StructType _) = ''*ast.StructType''"
| "go_type_name (MapType _ _) = ''*ast.MapType''"
| "go_type_name (ChanType _) = ''*ast.ChanType''"
| "go_type_name (Ellipsis _) = ''*ast.Ellipsis''"
| "go_type_name (BasicLit _) = ''*ast.BasicLit''"

text \<open>
  \<^verbatim>\<open>exprToString\<close>.  The type assertion \<^verbatim>\<open>v.X.(*ast.Ident)\<close> panics when the qualifier
  of a selector is not an identifier.  The log line of the default branch is not part of
  the result.
\<close>

fun exprToString :: "expr \<Rightarrow> panic + string" where
  "exprToString (Ident name) = Inr name"
| "exprToString (SelectorExpr x sel) =
     (case x of Ident name \<Rightarrow> Inr (name @ ''.'' @ sel) | _ \<Rightarrow> Inl InterfaceConversion)"
| "exprToString (ArrayType _ elt) =
     (case exprToString elt of Inl p \<Rightarrow> Inl p | Inr s \<Rightarrow> Inr (''[]'' @ s))"
| "exprToString (StarExpr x) =
     (case exprToString x of Inl p \<Rightarrow> Inl p | Inr s \<Rightarrow> Inr (''*'' @ s))"
| "exprToString e = Inr (''<error_unhandled_'' @ go_type_name e @ ''>'')"

text \<open>
  \<^verbatim>\<open>needsPackageRe\<close> is \<^verbatim>\<open>^([^A-Za-z0-9]*)([A-Z][^.]*)$\<close>.  The first group holds
  only characters that are no ASCII letter or digit and the second group starts with
  one, so a match can only split the text at its first ASCII letter or digit: the
  result of \<^verbatim>\<open>FindStringSubmatch\<close> is the pair of the two groups, or nil.
\<close>

definition is_upper :: "char \<Rightarrow> bool" where
  "is_upper c = (c \<in> set ''ABCDEFGHIJKLMNOPQRSTUVWXYZ'')"

definition is_alnum :: "char \<Rightarrow> bool" where
  "is_alnum c = (is_upper c \<or> c \<in> set ''abcdefghijklmnopqrstuvwxyz'' \<or> c \<in> set ''0123456789'')"

definition needsPackageRe :: "string \<Rightarrow> (string \<times> string) option" where
  "needsPackageRe s =
     (case dropWhile (\<lambda>c. \<not> is_alnum c) s of
        [] \<Rightarrow> None
      | c # cs \<Rightarrow>
          if is_upper c \<and> CHR ''.'' \<notin> set cs
          then Some (takeWhile (\<lambda>c. \<not> is_alnum c) s, c # cs)
          else None)"

section \<open>Field-list extractor\<close>

text \<open>
  \<^verbatim>\<open>fields\<close>: the loop over \<^verbatim>\<open>list.List\<close>, with \<open>ret\<close> the slice built so far.  The
  name of a field is the first of its names, or empty when it has none.  Reading
  \<^verbatim>\<open>list.List\<close> through a nil \<^verbatim>\<open>list\<close> panics.
\<close>

fun fields_loop :: "ast_Field list \<Rightarrow> string \<Rightarrow> Field list \<Rightarrow> panic + Field list" where
  "fields_loop [] pkg ret = Inr ret"
| "fields_loop (field # rest) pkg ret =
     (let name = (case Names field of [] \<Rightarrow> '''' | n # _ \<Rightarrow> n) in
      case exprToString (Type_of field) of
        Inl p \<Rightarrow> Inl p
      | Inr tp \<Rightarrow>
          let tp' = (case needsPackageRe tp of
                       None \<Rightarrow> tp
                     | Some (m1, m2) \<Rightarrow> m1 @ pkg @ ''.'' @ m2)
          in fields_loop rest pkg (ret @ [\<lparr>Field.Name = name, Type = tp'\<rparr>]))"

definition fields :: "ast_Field list option \<Rightarrow> string \<Rightarrow> panic + Field list" where
  "fields list pkg =
     (case list of None \<Rightarrow> Inl NilPointerDereference | Some l \<Rightarrow> fields_loop l pkg [])"

section \<open>Interface extractor: the walk over the target declaration\<close>

text \<open>
  The second \<^verbatim>\<open>ast.Inspect\<close> of \<^verbatim>\<open>Parse\<close> runs a closure over every node below the
  target declaration, in depth-first order.  The closure owns two variables, the name of
  the identifier seen last and the methods collected so far; they are the state of the
  walk.  The closure always returns true, so no subtree is skipped; the call with nil
  that ends the visit of a node changes neither variable.
\<close>

type_synonym walk_state = "string \<times> Method list"

text \<open>
  The closure at one expression node.  The arguments of the \<^verbatim>\<open>Method\<close> literal are
  evaluated in order, so a panic in the parameters comes before one in the results.
\<close>

definition visit :: "string \<Rightarrow> expr \<Rightarrow> walk_state \<Rightarrow> panic + walk_state" where
  "visit pkg n st =
     (let funcName = (case n of Ident name \<Rightarrow> name | _ \<Rightarrow> fst st) in
      case n of
        FuncType params results \<Rightarrow>
          (case fields params pkg of
             Inl p \<Rightarrow> Inl p
           | Inr input \<Rightarrow>
               (case fields results pkg of
                  Inl p \<Rightarrow> Inl p
                | Inr output \<Rightarrow>
                    Inr (funcName,
                         snd st @ [\<lparr>Method.Name = funcName, Input = input, Output = output\<rparr>])))
      | _ \<Rightarrow> Inr (funcName, snd st))"

text \<open>The closure at the identifiers of \<^verbatim>\<open>Field.Names\<close>, one after the other.\<close>

fun visit_names :: "string list \<Rightarrow> walk_state \<Rightarrow> walk_state" where
  "visit_names [] st = st"
| "visit_names (n # ns) st = visit_names ns (n, snd st)"

text \<open>
  \<^verbatim>\<open>ast.Walk\<close> calls the closure at the node and then walks the children in the order
  of the library (a selector: qualifier, then selected name; an array: length, then
  element; a function type: parameters, then results; a field: names, then type).  A
  step of the walk maps the closure's state to the next state, or panics; steps run one
  after the other until one panics.  A nil child is not walked.
\<close>

type_synonym step = "walk_state \<Rightarrow> panic + walk_state"

definition andThen :: "step \<Rightarrow> step \<Rightarrow> step" where
  "andThen f g st = (case f st of Inl p \<Rightarrow> Inl p | Inr s \<Rightarrow> g s)"

fun walkList :: "step list \<Rightarrow> step" where
  "walkList [] st = Inr st"
| "walkList (f # fs) st = andThen f (walkList fs) st"

definition ifNotNil :: "step option \<Rightarrow> step" where
  "ifNotNil f st = (case f of None \<Rightarrow> Inr st | Some g \<Rightarrow> g st)"

primrec walk_expr :: "string \<Rightarrow> expr \<Rightarrow> step"
  and walk_field :: "string \<Rightarrow> ast_Field \<Rightarrow> step"
where
  "walk_expr pkg (Ident name) = visit pkg (Ident name)"
| "walk_expr pkg (SelectorExpr x sel) =
     andThen (visit pkg (SelectorExpr x sel))
       (andThen (walk_expr pkg x) (visit pkg (Ident sel)))"
| "walk_expr pkg (ArrayType len elt) =
     andThen (visit pkg (ArrayType len elt))
       (andThen (ifNotNil (map_option (walk_expr pkg) len)) (walk_expr pkg elt))"
| "walk_expr pkg (StarExpr x) =
     andThen (visit pkg (StarExpr x)) (walk_expr pkg x)"
| "walk_expr pkg (FuncType params results) =
     andThen (visit pkg (FuncType params results))
       (andThen (ifNotNil (map_option walkList (map_option (map (walk_field pkg)) params)))
          (ifNotNil (map_option walkList (map_option (map (walk_field pkg)) results))))"
| "walk_expr pkg (InterfaceType methods) =
     andThen (visit pkg (InterfaceType methods)) (walkList (map (walk_field pkg) methods))"
| "walk_expr pkg (StructType flds) =
     andThen (visit pkg (StructType flds)) (walkList (map (walk_field pkg) flds))"
| "walk_expr pkg (MapType k v) =
     andThen (visit pkg (MapType k v)) (andThen (walk_expr pkg k) (walk_expr pkg v))"
| "walk_expr pkg (ChanType v) =
     andThen (visit pkg (ChanType v)) (walk_expr pkg v)"
| "walk_expr pkg (Ellipsis elt) =
     andThen (visit pkg (Ellipsis elt)) (ifNotNil (map_option (walk_expr pkg) elt))"
| "walk_expr pkg (BasicLit v) = visit pkg (BasicLit v)"
| "walk_field pkg (ast_Field names tp) =
     andThen (\<lambda>st. Inr (visit_names names st)) (walk_expr pkg tp)"

text \<open>
  The walk from the declaration itself: the closure passes over the \<^verbatim>\<open>TypeSpec\<close> node,
  records its name, and walks the type.  Both closure variables start at their zero
  values.
\<close>

definition inspect_querier :: "string \<Rightarrow> TypeSpec \<Rightarrow> panic + Method list" where
  "inspect_querier pkg querier =
     (case walk_expr pkg (TypeSpec.Type querier)
             (visit_names [TypeSpec.Name querier] ('''', [])) of
        Inl p \<Rightarrow> Inl p
      | Inr st \<Rightarrow> Inr (snd st))"

section \<open>The search for the target declaration\<close>

text \<open>
  The first \<^verbatim>\<open>ast.Inspect\<close> of \<^verbatim>\<open>Parse\<close>: the closure assigns every type declaration
  named \<^verbatim>\<open>Querier\<close> to the variable \<open>querier\<close>, so the last one met in the walk stays.  It
  returns false there, which skips the subtree of that declaration only.
\<close>

definition find_spec :: "spec \<Rightarrow> TypeSpec option \<Rightarrow> TypeSpec option" where
  "find_spec s querier =
     (case s of
        TypeSpecNode tp \<Rightarrow> if TypeSpec.Name tp = ''Querier'' then Some tp else querier
      | _ \<Rightarrow> querier)"

definition inspectList :: "('s \<Rightarrow> 's) list \<Rightarrow> 's \<Rightarrow> 's" where
  "inspectList gs = fold (\<lambda>g. g) gs"

primrec find_decl :: "decl \<Rightarrow> TypeSpec option \<Rightarrow> TypeSpec option"
  and find_stmt :: "stmt \<Rightarrow> TypeSpec option \<Rightarrow> TypeSpec option"
where
  "find_decl (GenDecl specs) = inspectList (map find_spec specs)"
| "find_decl (FuncDecl recv name tp body) =
     (case map_option (map find_stmt) body of
        None \<Rightarrow> (\<lambda>querier. querier)
      | Some gs \<Rightarrow> inspectList gs)"
| "find_stmt (DeclStmt d) = find_decl d"
| "find_stmt (BlockStmt ss) = inspectList (map find_stmt ss)"
| "find_stmt (IfStmt body els) =
     (\<lambda>querier.
        case map_option find_stmt els of
          None \<Rightarrow> inspectList (map find_stmt body) querier
        | Some g \<Rightarrow> g (inspectList (map find_stmt body) querier))"
| "find_stmt (ForStmt body) = inspectList (map find_stmt body)"
| "find_stmt ReturnStmt = (\<lambda>querier. querier)"

definition find_querier :: "File \<Rightarrow> TypeSpec option" where
  "find_querier file = inspectList (map find_decl (Decls file)) None"

section \<open>Paths\<close>

text \<open>
  \<^verbatim>\<open>path/filepath\<close> on a system whose separator is the slash and that has no volume names.
  \<^verbatim>\<open>Clean\<close> reads the path element by element: empty elements and \<^verbatim>\<open>.\<close> are dropped,
  \<^verbatim>\<open>..\<close> removes the element before it when there is one, is dropped at the root, and is
  kept at the start of a relative path.
\<close>

fun split_sep :: "string \<Rightarrow> string list" where
  "split_sep [] = [[]]"
| "split_sep (c # cs) =
     (if c = CHR ''/'' then [] # split_sep cs
      else (case split_sep cs of [] \<Rightarrow> [[c]] | x # xs \<Rightarrow> (c # x) # xs))"

fun join_sep :: "string list \<Rightarrow> string" where
  "join_sep [] = []"
| "join_sep [x] = x"
| "join_sep (x # y # ys) = x @ ''/'' @ join_sep (y # ys)"

definition clean_step :: "bool \<Rightarrow> string list \<Rightarrow> string \<Rightarrow> string list" where
  "clean_step rooted out elem =
     (if elem = [] \<or> elem = ''.'' then out
      else if elem = ''..'' then
        (if out \<noteq> [] \<and> last out \<noteq> ''..'' then butlast out
         else if rooted then out
         else out @ [''..''])
      else out @ [elem])"

definition Clean :: "string \<Rightarrow> string" where
  "Clean path =
     (if path = [] then ''.''
      else
        let rooted = (hd path = CHR ''/'');
            out = foldl (clean_step rooted) [] (split_sep path)
        in if rooted then ''/'' @ join_sep out
           else if out = [] then ''.''
           else join_sep out)"

text \<open>\<^verbatim>\<open>Dir\<close>: the path up to and including its last separator, cleaned.\<close>

definition strip_last :: "string \<Rightarrow> string" where
  "strip_last path = rev (dropWhile (\<lambda>c. c \<noteq> CHR ''/'') (rev path))"

definition Dir :: "string \<Rightarrow> string" where
  "Dir path = Clean (strip_last path)"

text \<open>\<^verbatim>\<open>Join\<close> of two elements: empty elements are ignored, the rest is cleaned.\<close>

definition Join :: "string \<Rightarrow> string \<Rightarrow> string" where
  "Join a b =
     (if a \<noteq> [] then Clean (a @ ''/'' @ b)
      else if b \<noteq> [] then Clean b
      else [])"

definition Base :: "string \<Rightarrow> string" where
  "Base path =
     (if path = [] then ''.''
      else
        let p = rev (dropWhile (\<lambda>c. c = CHR ''/'') (rev path));
            e = rev (takeWhile (\<lambda>c. c \<noteq> CHR ''/'') (rev p))
        in if e = [] then ''/'' else e)"

text \<open>\<^verbatim>\<open>strings.TrimPrefix\<close>.\<close>

definition TrimPrefix :: "string \<Rightarrow> string \<Rightarrow> string" where
  "TrimPrefix s pre = (if take (length pre) s = pre then drop (length pre) s else s)"

section \<open>Module resolver\<close>

function findModuleRoot :: "world \<Rightarrow> string \<Rightarrow> string" where
  "findModuleRoot w dir =
     (if os_Stat_regular w (Join dir ''go.mod'') then dir
      else let d = Dir dir in if d = dir then [] else findModuleRoot w d)"
  by pat_completeness auto

text \<open>
  \<^verbatim>\<open>findOutputModule\<close> changes the output through its receiver and returns an error: the
  model returns the output after the call beside the error.
\<close>

definition findOutputModule :: "world \<Rightarrow> Output \<Rightarrow> Opts \<Rightarrow> (Output \<times> error option) outcome" where
  "findOutputModule w output opts =
     (case filepath_Abs w (InputFile opts) of
        Inl e \<Rightarrow> Returns (output, Some (Lib e))
      | Inr absPath \<Rightarrow>
          let dir = Dir absPath;
              root = findModuleRoot w dir;
              modFile = Join root ''go.mod''
          in case os_ReadFile w modFile of
               Inl e \<Rightarrow> Returns (output, Some (Lib e))
             | Inr modContent \<Rightarrow>
                 (case modfile_Parse w modFile modContent of
                    Inl e \<Rightarrow> Returns (output, Some (Lib e))
                  | Inr None \<Rightarrow> Panics NilPointerDereference
                  | Inr (Some path) \<Rightarrow>
                      Returns (output\<lparr>ModelPath := path @ TrimPrefix dir root\<rparr>, None)))"

definition setOutputPackage :: "world \<Rightarrow> Output \<Rightarrow> Opts \<Rightarrow> Output outcome" where
  "setOutputPackage w output opts =
     (if OutputPackage opts \<noteq> [] then Returns (output\<lparr>GenPackage := OutputPackage opts\<rparr>)
      else case filepath_Abs w (OutputFile opts) of
             Inl e \<Rightarrow> LogFatal (Lib e)
           | Inr outPath \<Rightarrow> Returns (output\<lparr>GenPackage := Base (Dir outPath)\<rparr>))"

section \<open>Parse\<close>

text \<open>The loop over \<^verbatim>\<open>file.Imports\<close>, with \<open>imports\<close> the slice built so far.\<close>

fun imports_loop :: "world \<Rightarrow> ImportSpec list \<Rightarrow> Import list \<Rightarrow> error + Import list" where
  "imports_loop w [] imports = Inr imports"
| "imports_loop w (imp # rest) imports =
     (case strconv_Unquote w (ImportSpec.Path imp) of
        Inl e \<Rightarrow> Inl (Lib e)
      | Inr path \<Rightarrow>
          let name = (case ImportSpec.Name imp of None \<Rightarrow> [] | Some n \<Rightarrow> n)
          in imports_loop w rest (imports @ [\<lparr>Import.Path = path, Name = name\<rparr>]))"

text \<open>
  \<^verbatim>\<open>Parse\<close> returns an output and an error; with an error the output is the zero value,
  which no caller reads, so the model returns the error alone.
\<close>

definition Parse :: "world \<Rightarrow> Opts \<Rightarrow> (error + Output) outcome" where
  "Parse w opts =
     (case parser_ParseFile w (InputFile opts) of
        Inl e \<Rightarrow> LogFatal (Lib e)
      | Inr file \<Rightarrow>
          (case find_querier file of
             None \<Rightarrow> Returns (Inl ErrNoQuerier)
           | Some querier \<Rightarrow>
               let pkg = File.Name file in
               (case inspect_querier pkg querier of
                  Inl p \<Rightarrow> Panics p
                | Inr methods \<Rightarrow>
                    (case imports_loop w (File.Imports file) [] of
                       Inl e \<Rightarrow> Returns (Inl e)
                     | Inr imports \<Rightarrow>
                         let output = \<lparr>GenPackage = [], ModelPath = [], Package = pkg,
                                        Struct = ''Mocker'', Imports = imports,
                                        Methods = methods\<rparr>
                         in (case setOutputPackage w output opts of
                               LogFatal e \<Rightarrow> LogFatal e
                             | Panics p \<Rightarrow> Panics p
                             | Returns output1 \<Rightarrow>
                                 (case findOutputModule w output1 opts of
                                    LogFatal e \<Rightarrow> LogFatal e
                                  | Panics p \<Rightarrow> Panics p
                                  | Returns (output2, Some err) \<Rightarrow> Returns (Inl err)
                                  | Returns (output2, None) \<Rightarrow> Returns (Inr output2)))))))"

section \<open>Render, run and main\<close>

definition Render :: "world \<Rightarrow> Output \<Rightarrow> Opts \<Rightarrow> (error + string) outcome" where
  "Render w output opts =
     (case (if TemplateFile opts \<noteq> []
            then (case os_ReadFile w (TemplateFile opts) of
                    Inl e \<Rightarrow> Inl (Errorf ''failed to open template file: '' (Lib e))
                  | Inr content \<Rightarrow> Inr content)
            else Inr (defaultTpl w)) of
        Inl err \<Rightarrow> Returns (Inl err)
      | Inr templateContent \<Rightarrow>
          (case template_Parse w templateContent of
             Inl e \<Rightarrow> LogFatal (Lib e)
           | Inr tpl \<Rightarrow>
               (case tpl output of
                  Inl e \<Rightarrow> LogFatal (Lib e)
                | Inr buff \<Rightarrow>
                    if \<not> Format opts then Returns (Inr buff)
                    else (case format_Source w buff of
                            Inl e \<Rightarrow> Returns (Inl (Errorf ''failed to format source: '' (Lib e)))
                          | Inr result \<Rightarrow> Returns (Inr result)))))"

text \<open>
  \<^verbatim>\<open>run\<close>, after the flags are parsed into \<open>opts\<close>, with \<open>args\<close> the positional arguments.
  It returns its error (\<open>None\<close> for nil) beside the calls of \<^verbatim>\<open>os.WriteFile\<close> it made,
  each with its path and content.
\<close>

definition run :: "world \<Rightarrow> Opts \<Rightarrow> string list \<Rightarrow> (error option \<times> (string \<times> string) list) outcome" where
  "run w flags args =
     (case args of
        [] \<Rightarrow> Returns (Some (New ''usage: shmock path/to/querier.go''), [])
      | arg0 # _ \<Rightarrow>
          let opts = flags\<lparr>InputFile := arg0\<rparr> in
          (case Parse w opts of
             LogFatal e \<Rightarrow> LogFatal e
           | Panics p \<Rightarrow> Panics p
           | Returns (Inl err) \<Rightarrow> Returns (Some err, [])
           | Returns (Inr output) \<Rightarrow>
               (case Render w output opts of
                  LogFatal e \<Rightarrow> LogFatal e
                | Panics p \<Rightarrow> Panics p
                | Returns (Inl err) \<Rightarrow> Returns (Some err, [])
                | Returns (Inr generated) \<Rightarrow>
                    (case os_WriteFile w (OutputFile opts) generated of
                       Some e \<Rightarrow> Returns (Some (Lib e), [(OutputFile opts, generated)])
                     | None \<Rightarrow> Returns (None, [(OutputFile opts, generated)])))))"

text \<open>
  \<^verbatim>\<open>main\<close> with the files written: an error returned by \<^verbatim>\<open>run\<close> is printed by
  \<^verbatim>\<open>log.Fatal\<close>, which exits with status 1.
\<close>

definition main :: "world \<Rightarrow> Opts \<Rightarrow> string list \<Rightarrow> process_end \<times> (string \<times> string) list" where
  "main w flags args =
     (case run w flags args of
        Returns (None, written) \<Rightarrow> (Exit 0 None True, written)
      | Returns (Some err, written) \<Rightarrow> (Exit 1 (Some err) True, written)
      | LogFatal e \<Rightarrow> (Exit 1 (Some e) False, [])
      | Panics p \<Rightarrow> (Crash p, []))"

section \<open>Notions used to state the properties\<close>

text \<open>
  The number of function-type nodes in a type expression, the node itself included.
\<close>

primrec count_funcs :: "expr \<Rightarrow> nat"
  and count_funcs_field :: "ast_Field \<Rightarrow> nat"
where
  "count_funcs (Ident name) = 0"
| "count_funcs (SelectorExpr x sel) = count_funcs x"
| "count_funcs (ArrayType len elt) =
     (case map_option count_funcs len of None \<Rightarrow> 0 | Some n \<Rightarrow> n) + count_funcs elt"
| "count_funcs (StarExpr x) = count_funcs x"
| "count_funcs (FuncType params results) =
     1 + (case map_option (map count_funcs_field) params of None \<Rightarrow> 0 | Some ns \<Rightarrow> sum_list ns)
       + (case map_option (map count_funcs_field) results of None \<Rightarrow> 0 | Some ns \<Rightarrow> sum_list ns)"
| "count_funcs (InterfaceType methods) = sum_list (map count_funcs_field methods)"
| "count_funcs (StructType flds) = sum_list (map count_funcs_field flds)"
| "count_funcs (MapType k v) = count_funcs k + count_funcs v"
| "count_funcs (ChanType v) = count_funcs v"
| "count_funcs (Ellipsis elt) = (case map_option count_funcs elt of None \<Rightarrow> 0 | Some n \<Rightarrow> n)"
| "count_funcs (BasicLit v) = 0"
| "count_funcs_field (ast_Field names tp) = count_funcs tp"

text \<open>
  A type expression renders when \<^verbatim>\<open>exprToString\<close> returns a text for it, and a field list
  renders when it is not nil and every type in it renders.  A type expression is free of
  panics when every function type in it has parameter and result lists that render.
\<close>

definition renders :: "expr \<Rightarrow> bool" where
  "renders e = (case exprToString e of Inl p \<Rightarrow> False | Inr s \<Rightarrow> True)"

definition all_render :: "ast_Field list option \<Rightarrow> bool" where
  "all_render list = (case list of None \<Rightarrow> False | Some l \<Rightarrow> list_all (\<lambda>f. renders (Type_of f)) l)"

primrec panic_free :: "expr \<Rightarrow> bool"
  and panic_free_field :: "ast_Field \<Rightarrow> bool"
where
  "panic_free (Ident name) = True"
| "panic_free (SelectorExpr x sel) = panic_free x"
| "panic_free (ArrayType len elt) =
     ((case map_option panic_free len of None \<Rightarrow> True | Some b \<Rightarrow> b) \<and> panic_free elt)"
| "panic_free (StarExpr x) = panic_free x"
| "panic_free (FuncType params results) =
     (all_render params \<and> all_render results
      \<and> (case map_option (map panic_free_field) params of None \<Rightarrow> True | Some bs \<Rightarrow> list_all (\<lambda>b. b) bs)
      \<and> (case map_option (map panic_free_field) results of None \<Rightarrow> True | Some bs \<Rightarrow> list_all (\<lambda>b. b) bs))"
| "panic_free (InterfaceType methods) = list_all (\<lambda>b. b) (map panic_free_field methods)"
| "panic_free (StructType flds) = list_all (\<lambda>b. b) (map panic_free_field flds)"
| "panic_free (MapType k v) = (panic_free k \<and> panic_free v)"
| "panic_free (ChanType v) = panic_free v"
| "panic_free (Ellipsis elt) = (case map_option panic_free elt of None \<Rightarrow> True | Some b \<Rightarrow> b)"
| "panic_free (BasicLit v) = True"
| "panic_free_field (ast_Field names tp) = panic_free tp"

text \<open>
  A step of the walk appends \<open>n\<close> methods when every run of it that returns has added
  exactly \<open>n\<close> methods at the end of the list; it runs when it returns from every state.
\<close>

definition appends :: "step \<Rightarrow> nat \<Rightarrow> bool" where
  "appends f n = (\<forall>st st'. f st = Inr st' \<longrightarrow> (\<exists>new. snd st' = snd st @ new \<and> length new = n))"

definition runs :: "step \<Rightarrow> bool" where
  "runs f = (\<forall>st. \<exists>st'. f st = Inr st')"

text \<open>
  The entries of an interface's method list.  An entry is a method when its type is a
  function type; an entry of any other type is an embedded type.  A field list is plain
  when it is not nil and each of its types renders and contains no function type.  An
  entry is simple when it is a method with a single name and plain parameter and result
  lists, or an embedded type without function types.  The entry \<open>f\<close> is named by the
  method record \<open>m\<close> when the single name of \<open>f\<close> is the name of \<open>m\<close>.
\<close>

definition is_method :: "ast_Field \<Rightarrow> bool" where
  "is_method f = (case Type_of f of FuncType ps rs \<Rightarrow> True | _ \<Rightarrow> False)"

definition plain_list :: "ast_Field list option \<Rightarrow> bool" where
  "plain_list list =
     (case list of
        None \<Rightarrow> False
      | Some l \<Rightarrow> list_all (\<lambda>f. count_funcs (Type_of f) = 0 \<and> renders (Type_of f)) l)"

definition simple_item :: "ast_Field \<Rightarrow> bool" where
  "simple_item f =
     (case Type_of f of
        FuncType ps rs \<Rightarrow> length (Names f) = 1 \<and> plain_list ps \<and> plain_list rs
      | t \<Rightarrow> count_funcs t = 0)"

definition named :: "Method \<Rightarrow> ast_Field \<Rightarrow> bool" where
  "named m f = (Names f = [Method.Name m])"

text \<open>
  The field that the loop of \<^verbatim>\<open>fields\<close> builds for a slot whose type renders: its name and
  its type text.
\<close>

definition slot_name :: "ast_Field \<Rightarrow> string" where
  "slot_name f = (case Names f of [] \<Rightarrow> [] | n # ns \<Rightarrow> n)"

definition slot_type :: "string \<Rightarrow> expr \<Rightarrow> string" where
  "slot_type pkg e =
     (case exprToString e of
        Inl p \<Rightarrow> []
      | Inr tp \<Rightarrow> (case needsPackageRe tp of None \<Rightarrow> tp | Some (m1, m2) \<Rightarrow> m1 @ pkg @ ''.'' @ m2))"

text \<open>
  A list with the slots \<^verbatim>\<open>a, b Foo\<close>, \<^verbatim>\<open>*Foo\<close>, \<^verbatim>\<open>list []Foo\<close>, \<^verbatim>\<open>t pkg.Thing\<close> and
  \<^verbatim>\<open>error\<close>.
\<close>

definition example_slots :: "ast_Field list" where
  "example_slots =
     [ast_Field [''a'', ''b''] (Ident ''Foo''),
      ast_Field [] (StarExpr (Ident ''Foo'')),
      ast_Field [''list''] (ArrayType None (Ident ''Foo'')),
      ast_Field [''t''] (SelectorExpr (Ident ''pkg'') ''Thing''),
      ast_Field [] (Ident ''error'')]"

text \<open>
  Example inputs.  \<^verbatim>\<open>Each(f func(id int) error) error\<close> is a method with a parameter of
  function type.
\<close>

definition each_items :: "ast_Field list" where
  "each_items =
     [ast_Field [''Each'']
        (FuncType
           (Some [ast_Field [''f'']
                    (FuncType (Some [ast_Field [''id''] (Ident ''int'')])
                       (Some [ast_Field [] (Ident ''error'')]))])
           (Some [ast_Field [] (Ident ''error'')]))]"

text \<open>
  \<^verbatim>\<open>GetUser(ctx context.Context, id int) (*User, error)\<close>, the embedded \<^verbatim>\<open>io.Closer\<close>
  and \<^verbatim>\<open>Count() int\<close>.
\<close>

definition getuser_items :: "ast_Field list" where
  "getuser_items =
     [ast_Field [''GetUser'']
        (FuncType
           (Some [ast_Field [''ctx''] (SelectorExpr (Ident ''context'') ''Context''),
                  ast_Field [''id''] (Ident ''int'')])
           (Some [ast_Field [] (StarExpr (Ident ''User'')), ast_Field [] (Ident ''error'')])),
      ast_Field [] (SelectorExpr (Ident ''io'') ''Closer''),
      ast_Field [''Count''] (FuncType (Some []) (Some [ast_Field [] (Ident ''int'')]))]"

text \<open>
  \<^verbatim>\<open>Ping(ctx context.Context)\<close>, a method without results, and a file of package
  \<^verbatim>\<open>db\<close> that declares \<^verbatim>\<open>Querier\<close> with that method alone.
\<close>

definition ping_items :: "ast_Field list" where
  "ping_items =
     [ast_Field [''Ping'']
        (FuncType (Some [ast_Field [''ctx''] (SelectorExpr (Ident ''context'') ''Context'')])
           None)]"

definition ping_file :: File where
  "ping_file =
     \<lparr>File.Name = ''db'',
      Decls = [GenDecl [TypeSpecNode
                 \<lparr>TypeSpec.Name = ''Querier'', TypeSpec.Type = InterfaceType ping_items\<rparr>]],
      File.Imports = []\<rparr>"

text \<open>
  \<^verbatim>\<open>Watch(ch chan int) error\<close> and \<^verbatim>\<open>Each(f func(id int)) error\<close>, each followed by the
  sibling \<^verbatim>\<open>Get() error\<close>.
\<close>

definition get_item :: ast_Field where
  "get_item = ast_Field [''Get''] (FuncType (Some []) (Some [ast_Field [] (Ident ''error'')]))"

definition watch_items :: "ast_Field list" where
  "watch_items =
     [ast_Field [''Watch'']
        (FuncType (Some [ast_Field [''ch''] (ChanType (Ident ''int''))])
           (Some [ast_Field [] (Ident ''error'')])),
      get_item]"

definition callback_items :: "ast_Field list" where
  "callback_items =
     [ast_Field [''Each'']
        (FuncType
           (Some [ast_Field [''f''] (FuncType (Some [ast_Field [''id''] (Ident ''int'')]) None)])
           (Some [ast_Field [] (Ident ''error'')])),
      get_item]"

text \<open>
  A file declares a type of a given name when a type declaration of that name occurs in
  it, at top level or at any depth of a function body.  A step of the search finds
  \<open>b\<close> when it leaves the variable nil exactly if it was nil before and \<open>b\<close> is false.
\<close>

definition is_typespec :: "string \<Rightarrow> spec \<Rightarrow> bool" where
  "is_typespec name s = (case s of TypeSpecNode tp \<Rightarrow> TypeSpec.Name tp = name | _ \<Rightarrow> False)"

primrec declares_decl :: "string \<Rightarrow> decl \<Rightarrow> bool"
  and declares_stmt :: "string \<Rightarrow> stmt \<Rightarrow> bool"
where
  "declares_decl name (GenDecl specs) = list_ex (is_typespec name) specs"
| "declares_decl name (FuncDecl recv fname tp body) =
     (case map_option (map (declares_stmt name)) body of
        None \<Rightarrow> False
      | Some bs \<Rightarrow> list_ex (\<lambda>b. b) bs)"
| "declares_stmt name (DeclStmt d) = declares_decl name d"
| "declares_stmt name (BlockStmt ss) = list_ex (\<lambda>b. b) (map (declares_stmt name) ss)"
| "declares_stmt name (IfStmt body els) =
     (list_ex (\<lambda>b. b) (map (declares_stmt name) body)
      \<or> (case map_option (declares_stmt name) els of None \<Rightarrow> False | Some b \<Rightarrow> b))"
| "declares_stmt name (ForStmt body) = list_ex (\<lambda>b. b) (map (declares_stmt name) body)"
| "declares_stmt name ReturnStmt = False"

definition declares_type :: "string \<Rightarrow> File \<Rightarrow> bool" where
  "declares_type name file = list_ex (declares_decl name) (Decls file)"

definition finds :: "(TypeSpec option \<Rightarrow> TypeSpec option) \<Rightarrow> bool \<Rightarrow> bool" where
  "finds g b = (\<forall>q. (g q = None) = (q = None \<and> \<not> b))"

text \<open>
  Example files of a package \<^verbatim>\<open>db\<close>: one that declares \<^verbatim>\<open>Querier\<close>, and one that declares
  a struct \<^verbatim>\<open>Store\<close> and, inside a function, a type \<^verbatim>\<open>querier\<close> in lower case.  In the
  example world both files lie in a module rooted at \<^verbatim>\<open>/home/u/proj\<close>, every path
  given is already absolute, and a template prints the name of the generated package.
  In the second world no source file can be parsed.
\<close>

definition getuser_file :: File where
  "getuser_file =
     \<lparr>File.Name = ''db'',
      Decls = [GenDecl [ImportSpecNode \<lparr>ImportSpec.Name = None, ImportSpec.Path = ''\"context\"''\<rparr>],
               GenDecl [TypeSpecNode \<lparr>TypeSpec.Name = ''User'', TypeSpec.Type = StructType []\<rparr>],
               GenDecl [TypeSpecNode
                 \<lparr>TypeSpec.Name = ''Querier'', TypeSpec.Type = InterfaceType getuser_items\<rparr>]],
      File.Imports = [\<lparr>ImportSpec.Name = None, ImportSpec.Path = ''\"context\"''\<rparr>]\<rparr>"

definition store_file :: File where
  "store_file =
     \<lparr>File.Name = ''db'',
      Decls = [GenDecl [TypeSpecNode \<lparr>TypeSpec.Name = ''Store'', TypeSpec.Type = StructType []\<rparr>],
               FuncDecl None ''open'' (FuncType (Some []) None)
                 (Some [DeclStmt (GenDecl [TypeSpecNode
                          \<lparr>TypeSpec.Name = ''querier'', TypeSpec.Type = Ident ''int''\<rparr>]),
                        ReturnStmt])],
      File.Imports = []\<rparr>"

text \<open>A file that declares \<^verbatim>\<open>Querier\<close> as a struct, inside the blocks of a function.\<close>

definition nested_file :: File where
  "nested_file =
     \<lparr>File.Name = ''db'',
      Decls = [FuncDecl None ''setup'' (FuncType (Some []) None)
                 (Some [IfStmt
                          [BlockStmt [DeclStmt (GenDecl [TypeSpecNode
                             \<lparr>TypeSpec.Name = ''Querier'', TypeSpec.Type = StructType []\<rparr>])]]
                          None,
                        ReturnStmt])],
      File.Imports = []\<rparr>"

definition example_world :: world where
  "example_world =
     \<lparr>parser_ParseFile = (\<lambda>path.
        if path = ''/home/u/proj/internal/db/querier.go'' then Inr getuser_file
        else if path = ''/home/u/proj/internal/db/store.go'' then Inr store_file
        else Inl ''open: no such file or directory''),
      strconv_Unquote = (\<lambda>s. Inr (butlast (tl s))),
      filepath_Abs = (\<lambda>path. Inr path),
      os_Stat_regular = (\<lambda>path. path = ''/home/u/proj/go.mod''),
      os_ReadFile = (\<lambda>path.
        if path = ''/home/u/proj/go.mod'' then Inr ''module example.com/proj''
        else Inl ''open: no such file or directory''),
      modfile_Parse = (\<lambda>name content. Inr (Some ''example.com/proj'')),
      template_Parse = (\<lambda>content. Inr (\<lambda>output. Inr (''package '' @ GenPackage output))),
      format_Source = (\<lambda>src. Inr src),
      os_WriteFile = (\<lambda>path content. None),
      defaultTpl = ''package {{.GenPackage}}''\<rparr>"

definition example_flags :: Opts where
  "example_flags =
     \<lparr>InputFile = [], TemplateFile = [], OutputFile = ''/home/u/proj/internal/mock/mock.go'',
      OutputPackage = [], Format = True\<rparr>"

definition example_output :: Output where
  "example_output =
     \<lparr>GenPackage = ''mock'', ModelPath = ''example.com/proj/internal/db'', Package = ''db'',
      Struct = ''Mocker'', Imports = [], Methods = []\<rparr>"

definition unparsable_world :: world where
  "unparsable_world =
     example_world\<lparr>parser_ParseFile := \<lambda>path. Inl ''querier.go:1:1: expected package''\<rparr>"

text \<open>
  The absolute path with the given elements, as \<^verbatim>\<open>filepath.Abs\<close> returns it: rooted,
  with single separators, and with elements that are neither empty nor \<^verbatim>\<open>.\<close> nor
  \<^verbatim>\<open>..\<close>.
\<close>

definition real_elem :: "string \<Rightarrow> bool" where
  "real_elem e = (e \<noteq> [] \<and> e \<noteq> ''.'' \<and> e \<noteq> ''..'' \<and> CHR ''/'' \<notin> set e)"

definition abs_of :: "string list \<Rightarrow> string" where
  "abs_of es = ''/'' @ join_sep es"

text \<open>The measure that decreases along the search for the module root.\<close>

definition msr :: "string \<Rightarrow> nat" where
  "msr d = (if d = ''.'' then 0
            else 1 + 2 * length d + (if d \<noteq> [] \<and> last d = CHR ''/'' then 1 else 0))"

definition wt :: "string list \<Rightarrow> nat" where
  "wt xs = sum_list (map (\<lambda>x. Suc (length x)) xs)"

definition good :: "string list \<Rightarrow> bool" where
  "good out = (\<forall>x\<in>set out. x \<noteq> [] \<and> CHR ''/'' \<notin> set x)"

section \<open>Termination of the search for the module root\<close>

lemma wt_split: "wt (split_sep s) = Suc (length s)"
  by (induction s) (auto simp: wt_def split: list.splits)

lemma split_ne: "split_sep s \<noteq> []"
  by (induction s) (auto split: list.splits)

lemma split_noslash: "x \<in> set (split_sep s) \<Longrightarrow> CHR ''/'' \<notin> set x"
  by (induction s arbitrary: x) (auto split: list.splits if_splits)

lemma wt_step: "wt (clean_step r out e) \<le> wt out + Suc (length e)"
  apply (auto simp: clean_step_def wt_def)
  apply (cases out rule: rev_cases; simp)
  done

lemma wt_foldl: "wt (foldl (clean_step r) out es) \<le> wt out + wt es"
proof (induction es arbitrary: out)
  case Nil then show ?case by (simp add: wt_def)
next
  case (Cons e es)
  have "wt (foldl (clean_step r) (clean_step r out e) es) \<le> wt (clean_step r out e) + wt es"
    by (rule Cons.IH)
  also have "\<dots> \<le> wt out + Suc (length e) + wt es" using wt_step[of r out e] by simp
  finally show ?case by (simp add: wt_def)
qed

lemma len_join: "out \<noteq> [] \<Longrightarrow> Suc (length (join_sep out)) = wt out"
  by (induction out rule: join_sep.induct) (auto simp: wt_def)

lemma good_step: "good out \<Longrightarrow> CHR ''/'' \<notin> set e \<Longrightarrow> good (clean_step r out e)"
  by (auto simp: clean_step_def good_def dest: in_set_butlastD)

lemma good_foldl: "good out \<Longrightarrow> \<forall>e\<in>set es. CHR ''/'' \<notin> set e \<Longrightarrow> good (foldl (clean_step r) out es)"
  by (induction es arbitrary: out) (auto simp: good_step)

lemma last_join: "out \<noteq> [] \<Longrightarrow> good out \<Longrightarrow> join_sep out \<noteq> [] \<and> last (join_sep out) \<noteq> CHR ''/''"
proof (induction out rule: join_sep.induct)
  case (2 x)
  then show ?case by (metis good_def join_sep.simps(2) last_in_set list.set_intros(1))
qed (auto simp: good_def)

lemma Clean_len: "s \<noteq> [] \<Longrightarrow> length (Clean s) \<le> length s"
proof -
  assume ne: "s \<noteq> []"
  then obtain c cs where s: "s = c # cs" by (cases s) auto
  show ?thesis
  proof (cases "c = CHR ''/''")
    case True
    let ?out = "foldl (clean_step True) [] (split_sep cs)"
    have C: "Clean s = ''/'' @ join_sep ?out"
      using True s by (simp add: Clean_def clean_step_def)
    have "wt ?out \<le> Suc (length cs)" using wt_foldl[of True "[]" "split_sep cs"] 
      by (simp add: wt_split) (simp add: wt_def)
    then show ?thesis using C s len_join[of ?out] by (cases "?out = []") auto
  next
    case False
    let ?out = "foldl (clean_step False) [] (split_sep s)"
    have "wt ?out \<le> Suc (length s)" using wt_foldl[of False "[]" "split_sep s"] 
      by (simp add: wt_split) (simp add: wt_def)
    then show ?thesis using False s len_join[of ?out] by (cases "?out = []") (auto simp: Clean_def Let_def)
  qed
qed

lemma Clean_last: "Clean s \<noteq> ''/'' \<Longrightarrow> Clean s \<noteq> [] \<and> last (Clean s) \<noteq> CHR ''/''"
proof -
  assume a: "Clean s \<noteq> ''/''"
  have g: "good (foldl (clean_step r) [] (split_sep s))" for r
    by (rule good_foldl) (auto simp: good_def split_noslash)
  show ?thesis
  proof (cases "s = []")
    case True then show ?thesis by (simp add: Clean_def)
  next
    case False
    show ?thesis
    proof (cases "hd s = CHR ''/''")
      case True
      let ?out = "foldl (clean_step True) [] (split_sep s)"
      have C: "Clean s = ''/'' @ join_sep ?out" using True False by (simp add: Clean_def)
      with a have "?out \<noteq> []" by auto
      with C last_join[OF _ g[of True]] show ?thesis by auto
    next
      case F: False
      let ?out = "foldl (clean_step False) [] (split_sep s)"
      show ?thesis using F False last_join[OF _ g[of False]] by (auto simp: Clean_def Let_def)
    qed
  qed
qed

lemma strip_last_len: "length (strip_last d) \<le> length d"
  unfolding strip_last_def by (metis length_dropWhile_le length_rev)

lemma strip_last_cases: "strip_last d = d \<and> d \<noteq> [] \<and> last d = CHR ''/'' \<or> length (strip_last d) < length d \<or> d = []"
  apply (cases d rule: rev_cases)
   apply (auto simp: strip_last_def)
  by (metis length_dropWhile_le length_rev less_Suc_eq_le)

lemma Dir_decreases: "Dir d \<noteq> d \<Longrightarrow> msr (Dir d) < msr d"
proof -
  assume ne: "Dir d \<noteq> d"
  show ?thesis
  proof (cases "strip_last d = []")
    case True
    then have "Dir d = ''.''" by (simp add: Dir_def Clean_def)
    with ne show ?thesis by (auto simp: msr_def)
  next
    case False
    then have dne: "d \<noteq> []" by (auto simp: strip_last_def)
    have L: "length (Dir d) \<le> length (strip_last d)" unfolding Dir_def by (rule Clean_len[OF False])
    consider (a) "strip_last d = d" "last d = CHR ''/''" | (b) "length (strip_last d) < length d"
      using strip_last_cases[of d] dne by auto
    then show ?thesis
    proof cases
      case a
      show ?thesis
      proof (cases "Dir d = ''/''")
        case True
        with ne L a dne show ?thesis by (cases d; cases "tl d") (auto simp: msr_def)
      next
        case F2: False
        then have "Dir d \<noteq> [] \<and> last (Dir d) \<noteq> CHR ''/''" unfolding Dir_def by (rule Clean_last)
        with L a dne show ?thesis by (auto simp: msr_def)
      qed
    next
      case b
      have "d \<noteq> ''.''" using False by (auto simp: strip_last_def)
      with b L show ?thesis by (auto simp: msr_def)
    qed
  qed
qed

termination findModuleRoot
  by (relation "measure (\<lambda>(w, d). msr d)") (auto simp: Dir_decreases)

declare findModuleRoot.simps [simp del]


section \<open>The walk: one method for every function type\<close>

lemma appends_andThen: "appends f m \<Longrightarrow> appends g n \<Longrightarrow> appends (andThen f g) (m + n)"
  unfolding appends_def andThen_def
  by (fastforce split: sum.splits)

lemma appends_walkList:
  "\<forall>x\<in>set xs. appends (f x) (n x) \<Longrightarrow> appends (walkList (map f xs)) (sum_list (map n xs))"
proof (induction xs)
  case Nil
  then show ?case by (simp add: appends_def)
next
  case (Cons x xs)
  then have "appends (andThen (f x) (walkList (map f xs))) (n x + sum_list (map n xs))"
    by (intro appends_andThen) auto
  then show ?case by (simp add: appends_def)
qed

lemma appends_visit: "appends (visit pkg e) (case e of FuncType ps rs \<Rightarrow> 1 | _ \<Rightarrow> 0)"
  by (auto simp: appends_def visit_def Let_def split: expr.splits sum.splits)

lemma appends_names: "appends (\<lambda>st. Inr (visit_names names st)) 0"
proof -
  have "snd (visit_names names st) = snd st" for st
    by (induction names arbitrary: st) auto
  then show ?thesis by (auto simp: appends_def)
qed

lemma appends_nil: "appends (ifNotNil None) 0"
  by (simp add: appends_def ifNotNil_def)

lemma appends_some: "appends f n \<Longrightarrow> appends (ifNotNil (Some f)) n"
  by (simp add: appends_def ifNotNil_def)

lemma appends_walk:
  "appends (walk_expr pkg e) (count_funcs e)"
  "appends (walk_field pkg f) (count_funcs_field f)"
proof (induction e and f)
  case (Ident x)
  then show ?case using appends_visit[of pkg "Ident x"] by simp
next
  case (SelectorExpr x1 x2)
  then show ?case 
    using appends_andThen[OF appends_visit[of pkg "SelectorExpr x1 x2"] appends_andThen[OF SelectorExpr appends_visit[of pkg "Ident x2"]]]
    by simp
next
  case (ArrayType x1 x2)
  have "appends (ifNotNil (map_option (walk_expr pkg) x1)) (case map_option count_funcs x1 of None \<Rightarrow> 0 | Some n \<Rightarrow> n)"
    using ArrayType(1) by (cases x1) (auto intro: appends_nil appends_some)
  from appends_andThen[OF appends_visit[of pkg "ArrayType x1 x2"] appends_andThen[OF this ArrayType(2)]]
  show ?case by simp
next
  case (StarExpr x)
  then show ?case using appends_andThen[OF appends_visit[of pkg "StarExpr x"] StarExpr] by simp
next
  case (FuncType x1 x2)
  have a: "appends (ifNotNil (map_option walkList (map_option (map (walk_field pkg)) x1)))
                (case map_option (map count_funcs_field) x1 of None \<Rightarrow> 0 | Some ns \<Rightarrow> sum_list ns)"
    using FuncType(1) by (cases x1) (auto intro!: appends_nil appends_some appends_walkList)
  have b: "appends (ifNotNil (map_option walkList (map_option (map (walk_field pkg)) x2)))
                (case map_option (map count_funcs_field) x2 of None \<Rightarrow> 0 | Some ns \<Rightarrow> sum_list ns)"
    using FuncType(2) by (cases x2) (auto intro!: appends_nil appends_some appends_walkList)
  from appends_andThen[OF appends_visit[of pkg "FuncType x1 x2"] appends_andThen[OF a b]]
  show ?case by (simp add: add.assoc)
next
  case (InterfaceType x)
  then have "appends (walkList (map (walk_field pkg) x)) (sum_list (map count_funcs_field x))"
    by (intro appends_walkList) auto
  from appends_andThen[OF appends_visit[of pkg "InterfaceType x"] this]
  show ?case by simp
next
  case (StructType x)
  then have "appends (walkList (map (walk_field pkg) x)) (sum_list (map count_funcs_field x))"
    by (intro appends_walkList) auto
  from appends_andThen[OF appends_visit[of pkg "StructType x"] this]
  show ?case by simp
next
  case (MapType x1 x2)
  from appends_andThen[OF appends_visit[of pkg "MapType x1 x2"] appends_andThen[OF MapType]]
  show ?case by simp
next
  case (ChanType x)
  from appends_andThen[OF appends_visit[of pkg "ChanType x"] ChanType]
  show ?case by simp
next
  case (Ellipsis x)
  have "appends (ifNotNil (map_option (walk_expr pkg) x)) (case map_option count_funcs x of None \<Rightarrow> 0 | Some n \<Rightarrow> n)"
    using Ellipsis by (cases x) (auto intro: appends_nil appends_some)
  from appends_andThen[OF appends_visit[of pkg "Ellipsis x"] this]
  show ?case by simp
next
  case (BasicLit x)
  then show ?case using appends_visit[of pkg "BasicLit x"] by simp
next
  case (ast_Field x1 x2)
  from appends_andThen[OF appends_names[of x1] ast_Field]
  show ?case by simp
qed



lemma fields_loop_renders:
  "(\<exists>fs. fields_loop l pkg ret = Inr fs) = list_all (\<lambda>f. renders (Type_of f)) l"
  by (induction l arbitrary: ret) (auto simp: renders_def Let_def split: sum.splits)

lemma fields_renders: "(\<exists>fs. fields list pkg = Inr fs) = all_render list"
  by (cases list) (simp_all add: fields_def all_render_def fields_loop_renders)

lemma runs_andThen: "runs f \<Longrightarrow> runs g \<Longrightarrow> runs (andThen f g)"
  unfolding runs_def andThen_def by (metis sum.case(2))

lemma runs_visit_func:
  assumes "all_render ps" and "all_render rs"
  shows "runs (visit pkg (FuncType ps rs))"
proof -
  obtain input where i: "fields ps pkg = Inr input"
    using assms(1) fields_renders[of ps pkg] by blast
  obtain out where o: "fields rs pkg = Inr out"
    using assms(2) fields_renders[of rs pkg] by blast
  show ?thesis by (simp add: runs_def visit_def i o)
qed

lemma runs_visit_other: "(\<And>ps rs. e \<noteq> FuncType ps rs) \<Longrightarrow> runs (visit pkg e)"
  by (cases e) (auto simp: runs_def visit_def)

lemma runs_names: "runs (\<lambda>st. Inr (visit_names names st))"
  by (simp add: runs_def)

lemma runs_walkList: "\<forall>x\<in>set xs. runs (f x) \<Longrightarrow> runs (walkList (map f xs))"
proof (induction xs)
  case Nil
  then show ?case by (simp add: runs_def)
next
  case (Cons x xs)
  then have "runs (andThen (f x) (walkList (map f xs)))"
    by (intro runs_andThen) auto
  then show ?case by (simp add: runs_def)
qed

lemma runs_nil: "runs (ifNotNil None)"
  by (simp add: runs_def ifNotNil_def)

lemma runs_some: "runs f \<Longrightarrow> runs (ifNotNil (Some f))"
  by (simp add: runs_def ifNotNil_def)

lemma runs_walk:
  "panic_free e \<Longrightarrow> runs (walk_expr pkg e)"
  "panic_free_field f \<Longrightarrow> runs (walk_field pkg f)"
proof (induction e and f)
  case (Ident x)
  then show ?case by (simp add: runs_visit_other)
next
  case (SelectorExpr x1 x2)
  then show ?case by (simp add: runs_andThen runs_visit_other)
next
  case (ArrayType x1 x2)
  then have "runs (ifNotNil (map_option (walk_expr pkg) x1))"
    by (cases x1) (auto intro: runs_nil runs_some)
  with ArrayType show ?case by (simp add: runs_andThen runs_visit_other)
next
  case (StarExpr x)
  then show ?case by (simp add: runs_andThen runs_visit_other)
next
  case (FuncType x1 x2)
  have a: "runs (ifNotNil (map_option walkList (map_option (map (walk_field pkg)) x1)))"
    using FuncType by (cases x1) (auto intro!: runs_nil runs_some runs_walkList simp: list_all_iff)
  have b: "runs (ifNotNil (map_option walkList (map_option (map (walk_field pkg)) x2)))"
    using FuncType by (cases x2) (auto intro!: runs_nil runs_some runs_walkList simp: list_all_iff)
  from FuncType(3) have "runs (visit pkg (FuncType x1 x2))"
    by (simp add: runs_visit_func)
  with a b show ?case by (simp add: runs_andThen)
next
  case (InterfaceType x)
  then have "runs (walkList (map (walk_field pkg) x))"
    by (intro runs_walkList) (auto simp: list_all_iff)
  then show ?case by (simp add: runs_andThen runs_visit_other)
next
  case (StructType x)
  then have "runs (walkList (map (walk_field pkg) x))"
    by (intro runs_walkList) (auto simp: list_all_iff)
  then show ?case by (simp add: runs_andThen runs_visit_other)
next
  case (MapType x1 x2)
  then show ?case by (simp add: runs_andThen runs_visit_other)
next
  case (ChanType x)
  then show ?case by (simp add: runs_andThen runs_visit_other)
next
  case (Ellipsis x)
  then have "runs (ifNotNil (map_option (walk_expr pkg) x))"
    by (cases x) (auto intro: runs_nil runs_some)
  then show ?case by (simp add: runs_andThen runs_visit_other)
next
  case (BasicLit x)
  then show ?case by (simp add: runs_visit_other)
next
  case (ast_Field x1 x2)
  then show ?case by (simp add: runs_andThen runs_names)
qed

lemma count0_panic_free:
  "count_funcs e = 0 \<Longrightarrow> panic_free e"
  "count_funcs_field f = 0 \<Longrightarrow> panic_free_field f"
proof (induction e and f)
  case (ArrayType x1 x2)
  then show ?case by (cases x1) auto
next
  case (Ellipsis x)
  then show ?case by (cases x) auto
next
  case (InterfaceType x)
  then show ?case by (auto simp: list_all_iff)
next
  case (StructType x)
  then show ?case by (auto simp: list_all_iff)
qed auto

lemma walk_field_plain:
  assumes "count_funcs_field f = 0"
  shows "\<exists>fn'. walk_field pkg f (fn, acc) = Inr (fn', acc)"
proof -
  from runs_walk(2)[OF count0_panic_free(2)[OF assms], of pkg]
  obtain st' where w: "walk_field pkg f (fn, acc) = Inr st'" unfolding runs_def by blast
  with appends_walk(2)[of pkg f] assms have "snd st' = acc" unfolding appends_def by fastforce
  with w show ?thesis by (cases st') auto
qed

lemma walkList_plain:
  "list_all (\<lambda>f. count_funcs_field f = 0) l \<Longrightarrow> \<exists>fn'. walkList (map (walk_field pkg) l) (fn, acc) = Inr (fn', acc)"
proof (induction l arbitrary: fn)
  case Nil
  then show ?case by simp
next
  case (Cons f l)
  then obtain fn1 where "walk_field pkg f (fn, acc) = Inr (fn1, acc)" using walk_field_plain[of f pkg fn acc] by auto
  moreover obtain fn2 where "walkList (map (walk_field pkg) l) (fn1, acc) = Inr (fn2, acc)" using Cons by auto
  ultimately show ?case by (auto simp: andThen_def)
qed


lemma plain_list_render: "plain_list l \<Longrightarrow> all_render l"
  by (cases l) (auto simp: plain_list_def all_render_def list_all_iff)

lemma plain_list_walk:
  assumes "plain_list l"
  shows "\<exists>fn'. ifNotNil (map_option walkList (map_option (map (walk_field pkg)) l)) (fn, acc) = Inr (fn', acc)"
proof -
  from assms obtain fs where l: "l = Some fs" and "list_all (\<lambda>f. count_funcs (Type_of f) = 0) fs"
    by (cases l) (auto simp: plain_list_def list_all_iff)
  then have "list_all (\<lambda>f. count_funcs_field f = 0) fs"
    by (auto simp: list_all_iff) (metis ast_Field.collapse count_funcs_field.simps)
  from walkList_plain[OF this, of pkg fn acc] l show ?thesis
    by (simp add: ifNotNil_def)
qed

lemma walk_method_item:
  assumes "simple_item f" and "is_method f"
  shows "\<exists>fn' m. walk_field pkg f (fn, acc) = Inr (fn', acc @ [m]) \<and> named m f"
proof -
  from assms obtain n ps rs where f: "f = ast_Field [n] (FuncType ps rs)"
    and ps: "plain_list ps" and rs: "plain_list rs"
    by (cases f) (auto simp: simple_item_def is_method_def length_Suc_conv split: expr.splits)
  obtain input where i: "fields ps pkg = Inr input"
    using plain_list_render[OF ps] fields_renders[of ps pkg] by blast
  obtain out where o: "fields rs pkg = Inr out"
    using plain_list_render[OF rs] fields_renders[of rs pkg] by blast
  let ?m = "\<lparr>Method.Name = n, Input = input, Output = out\<rparr>"
  have v: "visit pkg (FuncType ps rs) (n, acc) = Inr (n, acc @ [?m])"
    by (simp add: visit_def i o)
  obtain fn1 where w1: "ifNotNil (map_option walkList (map_option (map (walk_field pkg)) ps)) (n, acc @ [?m]) = Inr (fn1, acc @ [?m])"
    using plain_list_walk[OF ps] by blast
  obtain fn2 where w2: "ifNotNil (map_option walkList (map_option (map (walk_field pkg)) rs)) (fn1, acc @ [?m]) = Inr (fn2, acc @ [?m])"
    using plain_list_walk[OF rs] by blast
  have "walk_field pkg f (fn, acc) = Inr (fn2, acc @ [?m])"
    by (simp add: f andThen_def v w1 w2)
  moreover have "named ?m f"
    by (simp add: named_def f)
  ultimately show ?thesis by blast
qed

lemma walk_other_item:
  assumes "simple_item f" and "\<not> is_method f"
  shows "\<exists>fn'. walk_field pkg f (fn, acc) = Inr (fn', acc)"
proof -
  from assms have "count_funcs_field f = 0"
    by (cases f) (auto simp: simple_item_def is_method_def split: expr.splits)
  then show ?thesis by (rule walk_field_plain)
qed

lemma walk_items:
  "list_all simple_item items \<Longrightarrow>
   \<exists>fn' new. walkList (map (walk_field pkg) items) (fn, acc) = Inr (fn', acc @ new)
      \<and> list_all2 named new (filter is_method items)"
proof (induction items arbitrary: fn acc)
  case Nil
  then show ?case by simp
next
  case (Cons f items)
  then have sf: "simple_item f" and rest: "list_all simple_item items" by auto
  show ?case
  proof (cases "is_method f")
    case True
    from walk_method_item[OF sf True, of pkg fn acc]
    obtain fn1 m where w: "walk_field pkg f (fn, acc) = Inr (fn1, acc @ [m])" and r: "named m f"
      by blast
    from Cons.IH[OF rest, of fn1 "acc @ [m]"]
    obtain fn2 new where w2: "walkList (map (walk_field pkg) items) (fn1, acc @ [m]) = Inr (fn2, (acc @ [m]) @ new)"
      and l: "list_all2 named new (filter is_method items)" by blast
    have "walkList (map (walk_field pkg) (f # items)) (fn, acc) = Inr (fn2, acc @ (m # new))"
      using w w2 by (simp add: andThen_def)
    moreover have "list_all2 named (m # new) (filter is_method (f # items))"
      using True r l by simp
    ultimately show ?thesis by blast
  next
    case False
    from walk_other_item[OF sf False, of pkg fn acc]
    obtain fn1 where w: "walk_field pkg f (fn, acc) = Inr (fn1, acc)" by blast
    from Cons.IH[OF rest, of fn1 acc]
    obtain fn2 new where w2: "walkList (map (walk_field pkg) items) (fn1, acc) = Inr (fn2, acc @ new)"
      and l: "list_all2 named new (filter is_method items)" by blast
    have "walkList (map (walk_field pkg) (f # items)) (fn, acc) = Inr (fn2, acc @ new)"
      using w w2 by (simp add: andThen_def)
    with False l show ?thesis by auto
  qed
qed

lemmas ev = Let_def inspect_querier_def andThen_def visit_def fields_def needsPackageRe_def
  is_alnum_def is_upper_def ifNotNil_def

section \<open>The pattern for names that need the package\<close>

text \<open>
  The function \<open>needsPackageRe\<close> finds exactly the matches of the pattern: a text matches
  with the groups \<open>g1\<close> and \<open>g2\<close> when it is \<open>g1\<close> followed by \<open>g2\<close>, \<open>g1\<close> holds no ASCII
  letter or digit, and \<open>g2\<close> is an upper-case ASCII letter followed by characters other
  than the dot.
\<close>

lemma needsPackageRe_matches:
  "(needsPackageRe s = Some (g1, g2)) =
     (s = g1 @ g2 \<and> (\<forall>x\<in>set g1. \<not> is_alnum x)
      \<and> (\<exists>c cs. g2 = c # cs \<and> is_upper c \<and> CHR ''.'' \<notin> set cs))"
proof
  assume a: "needsPackageRe s = Some (g1, g2)"
  then obtain c cs where d: "dropWhile (\<lambda>c. \<not> is_alnum c) s = c # cs"
    and u: "is_upper c \<and> CHR ''.'' \<notin> set cs"
    and g: "g1 = takeWhile (\<lambda>c. \<not> is_alnum c) s" "g2 = c # cs"
    by (auto simp: needsPackageRe_def split: list.splits if_splits)
  have "s = g1 @ g2" using d g takeWhile_dropWhile_id[of "\<lambda>c. \<not> is_alnum c" s] by simp
  moreover have "\<forall>x\<in>set g1. \<not> is_alnum x" using g(1) by (auto dest: set_takeWhileD)
  ultimately show "s = g1 @ g2 \<and> (\<forall>x\<in>set g1. \<not> is_alnum x)
      \<and> (\<exists>c cs. g2 = c # cs \<and> is_upper c \<and> CHR ''.'' \<notin> set cs)"
    using u g(2) by auto
next
  assume "s = g1 @ g2 \<and> (\<forall>x\<in>set g1. \<not> is_alnum x)
      \<and> (\<exists>c cs. g2 = c # cs \<and> is_upper c \<and> CHR ''.'' \<notin> set cs)"
  then obtain c cs where s: "s = g1 @ c # cs" and n: "\<forall>x\<in>set g1. \<not> is_alnum x"
    and g2: "g2 = c # cs" and u: "is_upper c" "CHR ''.'' \<notin> set cs" by auto
  have al: "is_alnum c" using u(1) by (simp add: is_alnum_def)
  have "takeWhile (\<lambda>c. \<not> is_alnum c) s = g1" using s n al by (simp add: takeWhile_append2)
  moreover have "dropWhile (\<lambda>c. \<not> is_alnum c) s = c # cs" using s n al by (simp add: dropWhile_append2)
  ultimately show "needsPackageRe s = Some (g1, g2)" using u g2 by (simp add: needsPackageRe_def)
qed

section \<open>Field-list extractor: grouped names and nil lists\<close>

text \<open>
  Claim C1 says that a parameter list \<^verbatim>\<open>(a, b int)\<close> gives two fields of type
  \<^verbatim>\<open>int\<close>, one for each name.  The parser keeps both names in one group, and the
  extractor builds one field for the group, named after its first name: the name
  \<^verbatim>\<open>b\<close> is lost, as is every name after the first in any group.
\<close>

theorem fields_keeps_first_name_only:
  "fields (Some [ast_Field [''a'', ''b''] (Ident ''int'')]) pkg
     = Inr [\<lparr>Field.Name = ''a'', Type = ''int''\<rparr>]
   \<and> fields (Some [ast_Field (n # ns) (Ident ''int'')]) pkg
     = Inr [\<lparr>Field.Name = n, Type = ''int''\<rparr>]"
  by (simp add: ev)

text \<open>
  Claim C2 says that the extraction succeeds on a method without parameters or without
  results, with an empty field sequence.  An empty parameter list gives the empty
  sequence.  A signature without results has a nil result list: the extractor panics on
  it, and so does \<^verbatim>\<open>Parse\<close> on a file whose interface has such a method, whatever the
  libraries answer otherwise.
\<close>

theorem method_without_results_panics:
  "fields (Some []) pkg = Inr []
   \<and> fields None pkg = Inl NilPointerDereference
   \<and> inspect_querier ''db''
         \<lparr>TypeSpec.Name = ''Querier'', TypeSpec.Type = InterfaceType ping_items\<rparr>
       = Inl NilPointerDereference
   \<and> Parse (w\<lparr>parser_ParseFile := \<lambda>path. Inr ping_file\<rparr>) opts = Panics NilPointerDereference"
  by (simp add: ev ping_items_def ping_file_def Parse_def find_querier_def inspectList_def
      find_spec_def)

section \<open>Properties of the type-reference renderer\<close>

text \<open>
  Claim C4 says that an identifier with an upper-case initial is qualified with the
  declaring package, and that a package-qualified type and an identifier with a
  lower-case initial are left unchanged.  The pattern knows ASCII letters and digits
  only, and its first group takes every other character: with the declaring package
  \<^verbatim>\<open>bar\<close>, the qualified type \<^verbatim>\<open>__.Thing\<close> becomes \<^verbatim>\<open>__.bar.Thing\<close>, an identifier
  that starts with the upper-case letter U+00DC is left unchanged, and an identifier made
  of the lower-case letter U+00E9 and \<^verbatim>\<open>A\<close> is rewritten.
\<close>

theorem qualification_follows_ascii_pattern:
  "fields (Some [ast_Field [] (SelectorExpr (Ident ''__'') ''Thing'')]) ''bar''
     = Inr [\<lparr>Field.Name = [], Type = ''__.bar.Thing''\<rparr>]
   \<and> fields (Some [ast_Field [] (Ident (CHR 0xC3 # CHR 0x9C # ''bung''))]) ''bar''
     = Inr [\<lparr>Field.Name = [], Type = CHR 0xC3 # CHR 0x9C # ''bung''\<rparr>]
   \<and> fields (Some [ast_Field [] (Ident (CHR 0xC3 # CHR 0xA9 # ''A''))]) ''bar''
     = Inr [\<lparr>Field.Name = [], Type = CHR 0xC3 # CHR 0xA9 # ''bar.A''\<rparr>]"
  by (simp add: ev)

lemma fields_loop_slots:
  "fields_loop l pkg ret = Inr fs \<Longrightarrow>
   fs = ret @ map (\<lambda>f. \<lparr>Field.Name = slot_name f, Type = slot_type pkg (Type_of f)\<rparr>) l"
proof (induction l arbitrary: ret)
  case Nil
  then show ?case by simp
next
  case (Cons f l)
  from Cons.prems obtain tp where tp: "exprToString (Type_of f) = Inr tp"
    by (cases "exprToString (Type_of f)") (simp_all add: Let_def)
  let ?x = "\<lparr>Field.Name = slot_name f, Type = slot_type pkg (Type_of f)\<rparr>"
  have "fields_loop l pkg (ret @ [?x]) = Inr fs"
    using Cons.prems tp by (simp add: Let_def slot_name_def slot_type_def)
  from Cons.IH[OF this] show ?case by simp
qed

lemma fields_slot:
  assumes "fields (Some l) pkg = Inr fs" and "i < length l"
  shows "length fs = length l"
    and "Field.Type (fs ! i) = slot_type pkg (Type_of (l ! i))"
    and "Field.Name (fs ! i) = slot_name (l ! i)"
  using fields_loop_slots[of l pkg "[]" fs] assms by (simp_all add: fields_def)

lemma re_exported:
  "is_upper c \<Longrightarrow> CHR ''.'' \<notin> set cs \<Longrightarrow> \<forall>x\<in>set pre. \<not> is_alnum x \<Longrightarrow>
   needsPackageRe (pre @ c # cs) = Some (pre, c # cs)"
  using needsPackageRe_matches[of "pre @ c # cs" pre "c # cs"] by simp

lemma re_qualified:
  assumes "list_ex is_alnum q"
  shows "needsPackageRe (q @ ''.'' @ sel) = None"
proof -
  from assms obtain x where x: "x \<in> set q" "is_alnum x" by (auto simp: list_ex_iff)
  then have d: "dropWhile (\<lambda>c. \<not> is_alnum c) (q @ ''.'' @ sel)
             = dropWhile (\<lambda>c. \<not> is_alnum c) q @ ''.'' @ sel"
    by (simp add: dropWhile_append1)
  from x have "dropWhile (\<lambda>c. \<not> is_alnum c) q \<noteq> []" by (auto simp: dropWhile_eq_Nil_conv)
  then obtain c r where "dropWhile (\<lambda>c. \<not> is_alnum c) q = c # r" by (cases "dropWhile (\<lambda>c. \<not> is_alnum c) q") auto
  with d show ?thesis by (simp add: needsPackageRe_def)
qed

lemma re_lower:
  "lc \<in> set ''abcdefghijklmnopqrstuvwxyz'' \<Longrightarrow> needsPackageRe (lc # ls) = None"
  by (auto simp: needsPackageRe_def is_alnum_def is_upper_def)

text \<open>
  Claim C4, amended: in every slot of a parameter or result list, named or not, a bare
  identifier \<^verbatim>\<open>Foo\<close> that starts with an upper-case ASCII letter is rendered as
  \<^verbatim>\<open>bar.Foo\<close> for the declaring package \<^verbatim>\<open>bar\<close>, \<^verbatim>\<open>*Foo\<close> as \<^verbatim>\<open>*bar.Foo\<close> and
  \<^verbatim>\<open>[]Foo\<close> as \<^verbatim>\<open>[]bar.Foo\<close>; a type qualified by a package name that holds an ASCII
  letter or digit, such as \<^verbatim>\<open>pkg.Thing\<close>, and an identifier that starts with a
  lower-case ASCII letter, such as \<^verbatim>\<open>error\<close>, are left unchanged.  An identifier holds
  no dot.  The list is rendered whenever each of its types renders.
\<close>

theorem exported_ascii_names_are_qualified:
  "(list_all (\<lambda>f. renders (Type_of f)) l \<longrightarrow> (\<exists>fs. fields (Some l) bar = Inr fs))
   \<and> (fields (Some l) bar = Inr fs \<and> i < length l \<longrightarrow>
        length fs = length l
        \<and> (is_upper c \<and> CHR ''.'' \<notin> set cs \<longrightarrow>
             (Type_of (l ! i) = Ident (c # cs) \<longrightarrow>
                Field.Type (fs ! i) = bar @ ''.'' @ c # cs)
           \<and> (Type_of (l ! i) = StarExpr (Ident (c # cs)) \<longrightarrow>
                Field.Type (fs ! i) = ''*'' @ bar @ ''.'' @ c # cs)
           \<and> (Type_of (l ! i) = ArrayType len (Ident (c # cs)) \<longrightarrow>
                Field.Type (fs ! i) = ''[]'' @ bar @ ''.'' @ c # cs))
        \<and> (list_ex is_alnum q \<and> Type_of (l ! i) = SelectorExpr (Ident q) sel \<longrightarrow>
             Field.Type (fs ! i) = q @ ''.'' @ sel)
        \<and> (lc \<in> set ''abcdefghijklmnopqrstuvwxyz'' \<and> Type_of (l ! i) = Ident (lc # ls) \<longrightarrow>
             Field.Type (fs ! i) = lc # ls))"
proof (intro conjI impI)
  assume "list_all (\<lambda>f. renders (Type_of f)) l"
  then show "\<exists>fs. fields (Some l) bar = Inr fs"
    using fields_renders[of "Some l" bar] by (simp add: all_render_def)
next
  assume a: "fields (Some l) bar = Inr fs \<and> i < length l"
  then show "length fs = length l" using fields_slot(1)[of l bar fs i] by simp
next
  assume a: "fields (Some l) bar = Inr fs \<and> i < length l"
    and u: "is_upper c \<and> CHR ''.'' \<notin> set cs"
  have t: "Field.Type (fs ! i) = slot_type bar (Type_of (l ! i))"
    using a fields_slot(2)[of l bar fs i] by simp
  have m: "needsPackageRe (c # cs) = Some ([], c # cs)"
    using u re_exported[of c cs "[]"] by simp
  have s: "needsPackageRe (''*'' @ c # cs) = Some (''*'', c # cs)"
    using u re_exported[of c cs "''*''"] by (simp add: is_alnum_def is_upper_def)
  have b: "needsPackageRe (''[]'' @ c # cs) = Some (''[]'', c # cs)"
    using u re_exported[of c cs "''[]''"] by (simp add: is_alnum_def is_upper_def)
  {
    assume "Type_of (l ! i) = Ident (c # cs)"
    then show "Field.Type (fs ! i) = bar @ ''.'' @ c # cs"
      using t m by (simp add: slot_type_def)
  }
  {
    assume "Type_of (l ! i) = StarExpr (Ident (c # cs))"
    then show "Field.Type (fs ! i) = ''*'' @ bar @ ''.'' @ c # cs"
      using t s by (simp add: slot_type_def)
  }
  {
    assume "Type_of (l ! i) = ArrayType len (Ident (c # cs))"
    then show "Field.Type (fs ! i) = ''[]'' @ bar @ ''.'' @ c # cs"
      using t b by (simp add: slot_type_def)
  }
next
  assume a: "fields (Some l) bar = Inr fs \<and> i < length l"
    and q: "list_ex is_alnum q \<and> Type_of (l ! i) = SelectorExpr (Ident q) sel"
  have t: "Field.Type (fs ! i) = slot_type bar (Type_of (l ! i))"
    using a fields_slot(2)[of l bar fs i] by simp
  then show "Field.Type (fs ! i) = q @ ''.'' @ sel"
    using q re_qualified[of q sel] by (simp add: slot_type_def)
next
  assume a: "fields (Some l) bar = Inr fs \<and> i < length l"
    and q: "lc \<in> set ''abcdefghijklmnopqrstuvwxyz'' \<and> Type_of (l ! i) = Ident (lc # ls)"
  have t: "Field.Type (fs ! i) = slot_type bar (Type_of (l ! i))"
    using a fields_slot(2)[of l bar fs i] by simp
  then show "Field.Type (fs ! i) = lc # ls"
    using q re_lower[of lc ls] by (simp add: slot_type_def)
qed

theorem exported_ascii_names_are_qualified_witness:
  "\<exists>fs. fields (Some example_slots) ''bar'' = Inr fs \<and> length fs = 5
     \<and> Field.Type (fs ! 0) = ''bar.Foo''
     \<and> Field.Type (fs ! 1) = ''*bar.Foo''
     \<and> Field.Type (fs ! 2) = ''[]bar.Foo''
     \<and> Field.Type (fs ! 3) = ''pkg.Thing''
     \<and> Field.Type (fs ! 4) = ''error''"
proof -
  have r: "list_all (\<lambda>f. renders (Type_of f)) example_slots"
    by (simp add: example_slots_def renders_def)
  note t = exported_ascii_names_are_qualified
      [where l = example_slots and bar = "''bar''" and c = "CHR ''F''" and cs = "''oo''"
         and len = None and q = "''pkg''" and sel = "''Thing''" and lc = "CHR ''e''"
         and ls = "''rror''"]
  from t r obtain fs where fs: "fields (Some example_slots) ''bar'' = Inr fs" by blast
  have u: "is_upper CHR ''F'' \<and> CHR ''.'' \<notin> set ''oo''" by (simp add: is_upper_def)
  have a: "list_ex is_alnum ''pkg''" by (simp add: is_alnum_def)
  have n: "length example_slots = 5" by (simp add: example_slots_def)
  have "length fs = 5" using t[of fs 0] fs n by simp
  moreover have "Field.Type (fs ! 0) = ''bar.Foo''"
    using t[of fs 0] fs u by (simp add: example_slots_def)
  moreover have "Field.Type (fs ! 1) = ''*bar.Foo''"
    using t[of fs 1] fs u by (simp add: example_slots_def)
  moreover have "Field.Type (fs ! 2) = ''[]bar.Foo''"
    using t[of fs 2] fs u by (simp add: example_slots_def)
  moreover have "Field.Type (fs ! 3) = ''pkg.Thing''"
    using t[of fs 3] fs a by (simp add: example_slots_def is_alnum_def)
  moreover have "Field.Type (fs ! 4) = ''error''"
    using t[of fs 4] fs by (simp add: example_slots_def)
  ultimately show ?thesis using fs by blast
qed

text \<open>
  Claim C6 says that a type of an unsupported shape is rendered as a sentinel and that
  the sibling methods are still extracted.  A channel type behaves so.  A parameter of
  a function type without results is rendered as the sentinel too, but the walk then
  reaches that function type, reads its nil result list and panics: no method of the
  interface is extracted.
\<close>

theorem function_parameter_without_results_panics:
  "exprToString (FuncType (Some [ast_Field [''id''] (Ident ''int'')]) None)
     = Inr ''<error_unhandled_*ast.FuncType>''
   \<and> inspect_querier ''db''
         \<lparr>TypeSpec.Name = ''Querier'', TypeSpec.Type = InterfaceType watch_items\<rparr>
       = Inr [\<lparr>Method.Name = ''Watch'',
               Input = [\<lparr>Field.Name = ''ch'', Type = ''<error_unhandled_*ast.ChanType>''\<rparr>],
               Output = [\<lparr>Field.Name = [], Type = ''error''\<rparr>]\<rparr>,
              \<lparr>Method.Name = ''Get'', Input = [],
               Output = [\<lparr>Field.Name = [], Type = ''error''\<rparr>]\<rparr>]
   \<and> inspect_querier ''db''
         \<lparr>TypeSpec.Name = ''Querier'', TypeSpec.Type = InterfaceType callback_items\<rparr>
       = Inl NilPointerDereference"
  by (simp add: ev watch_items_def callback_items_def get_item_def)

section \<open>Properties of the interface extractor\<close>

text \<open>
  Claim C7 says that an interface with N methods gives exactly N method records.  It
  fails for a method with a parameter of function type: the interface below declares one
  method and the extractor returns two records, the second named after the parameter.
\<close>

theorem nested_function_type_adds_method:
  "inspect_querier ''db''
     \<lparr>TypeSpec.Name = ''Querier'', TypeSpec.Type = InterfaceType each_items\<rparr>
   = Inr [\<lparr>Method.Name = ''Each'',
           Input = [\<lparr>Field.Name = ''f'', Type = ''<error_unhandled_*ast.FuncType>''\<rparr>],
           Output = [\<lparr>Field.Name = [], Type = ''error''\<rparr>]\<rparr>,
          \<lparr>Method.Name = ''f'',
           Input = [\<lparr>Field.Name = ''id'', Type = ''int''\<rparr>],
           Output = [\<lparr>Field.Name = [], Type = ''error''\<rparr>]\<rparr>]
   \<and> length (filter is_method each_items) = 1"
  by (simp add: each_items_def is_method_def ev)

text \<open>
  Claim C7, amended: when every method of the interface has a parameter list and a
  result list whose types contain no function type, and every embedded type contains
  none, the extractor returns exactly one record for each method, in the order of
  declaration, with the declared name.
\<close>

theorem methods_in_declaration_order:
  assumes "list_all simple_item items"
  shows "\<exists>ms. inspect_querier pkg \<lparr>TypeSpec.Name = name, TypeSpec.Type = InterfaceType items\<rparr> = Inr ms
           \<and> length ms = length (filter is_method items)
           \<and> list_all2 named ms (filter is_method items)"
proof -
  from walk_items[OF assms, of pkg name "[]"]
  obtain fn' new where w: "walkList (map (walk_field pkg) items) (name, []) = Inr (fn', new)"
    and l: "list_all2 named new (filter is_method items)" by auto
  have "inspect_querier pkg \<lparr>TypeSpec.Name = name, TypeSpec.Type = InterfaceType items\<rparr> = Inr new"
    by (simp add: inspect_querier_def andThen_def visit_def w)
  with l show ?thesis by (auto dest: list_all2_lengthD)
qed

theorem methods_in_declaration_order_witness:
  "list_all simple_item getuser_items
   \<and> inspect_querier ''db'' \<lparr>TypeSpec.Name = ''Querier'', TypeSpec.Type = InterfaceType getuser_items\<rparr>
       = Inr [\<lparr>Method.Name = ''GetUser'',
               Input = [\<lparr>Field.Name = ''ctx'', Type = ''context.Context''\<rparr>,
                        \<lparr>Field.Name = ''id'', Type = ''int''\<rparr>],
               Output = [\<lparr>Field.Name = [], Type = ''*db.User''\<rparr>,
                         \<lparr>Field.Name = [], Type = ''error''\<rparr>]\<rparr>,
              \<lparr>Method.Name = ''Count'', Input = [],
               Output = [\<lparr>Field.Name = [], Type = ''int''\<rparr>]\<rparr>]"
proof -
  have h: "list_all simple_item getuser_items"
    by (simp add: getuser_items_def simple_item_def plain_list_def renders_def)
  from methods_in_declaration_order[OF h, of "''db''" "''Querier''"]
  show ?thesis using h by (simp add: getuser_items_def ev)
qed

text \<open>
  Claim C9: the walk appends one method record for every function-type node below the
  target declaration, so whenever it returns, the number of records is the number of
  these nodes, and it returns whenever the declaration is free of panics.  The
  interface with the method \<^verbatim>\<open>Each(f func(id int) error) error\<close> declares one method
  and gives more records than that.
\<close>

theorem one_method_per_function_type:
  "(\<forall>ms. inspect_querier pkg querier = Inr ms \<longrightarrow> length ms = count_funcs (TypeSpec.Type querier))
   \<and> (panic_free (TypeSpec.Type querier) \<longrightarrow> (\<exists>ms. inspect_querier pkg querier = Inr ms))
   \<and> (\<exists>ms. inspect_querier ''db'' \<lparr>TypeSpec.Name = ''Querier'', TypeSpec.Type = InterfaceType each_items\<rparr> = Inr ms
          \<and> length (filter is_method each_items) < length ms)"
proof (intro conjI allI impI)
  fix ms
  assume a: "inspect_querier pkg querier = Inr ms"
  then obtain st' where w: "walk_expr pkg (TypeSpec.Type querier) (TypeSpec.Name querier, []) = Inr st'"
    and ms: "ms = snd st'"
    by (auto simp: inspect_querier_def split: sum.splits)
  from appends_walk(1)[of pkg "TypeSpec.Type querier"] w
  have "\<exists>new. snd st' = [] @ new \<and> length new = count_funcs (TypeSpec.Type querier)"
    unfolding appends_def by fastforce
  with ms show "length ms = count_funcs (TypeSpec.Type querier)" by simp
next
  assume "panic_free (TypeSpec.Type querier)"
  from runs_walk(1)[OF this, of pkg]
  obtain st' where "walk_expr pkg (TypeSpec.Type querier) (TypeSpec.Name querier, []) = Inr st'"
    unfolding runs_def by blast
  then show "\<exists>ms. inspect_querier pkg querier = Inr ms"
    by (simp add: inspect_querier_def)
next
  show "\<exists>ms. inspect_querier ''db'' \<lparr>TypeSpec.Name = ''Querier'', TypeSpec.Type = InterfaceType each_items\<rparr> = Inr ms
          \<and> length (filter is_method each_items) < length ms"
    by (simp add: each_items_def is_method_def ev)
qed

theorem one_method_per_function_type_witness:
  "panic_free (InterfaceType each_items)
   \<and> count_funcs (InterfaceType each_items) = 2
   \<and> (\<exists>ms. inspect_querier ''db'' \<lparr>TypeSpec.Name = ''Querier'', TypeSpec.Type = InterfaceType each_items\<rparr> = Inr ms
          \<and> length ms = 2)"
proof -
  have p: "panic_free (InterfaceType each_items)"
    by (simp add: each_items_def all_render_def renders_def)
  have c: "count_funcs (InterfaceType each_items) = 2"
    by (simp add: each_items_def)
  from one_method_per_function_type[of "''db''" "\<lparr>TypeSpec.Name = ''Querier'', TypeSpec.Type = InterfaceType each_items\<rparr>"]
  show ?thesis using p c by auto
qed


section \<open>Properties of the search for the target declaration\<close>

lemma finds_id: "finds (\<lambda>q. q) False"
  by (simp add: finds_def)

lemma finds_comp: "finds g b \<Longrightarrow> finds h c \<Longrightarrow> finds (\<lambda>q. h (g q)) (b \<or> c)"
  by (auto simp: finds_def)

lemma finds_inspectList:
  "\<forall>x\<in>set xs. finds (g x) (b x) \<Longrightarrow> finds (inspectList (map g xs)) (list_ex b xs)"
proof (induction xs)
  case Nil
  then show ?case by (simp add: inspectList_def finds_def)
next
  case (Cons x xs)
  then have "finds (g x) (b x)" and "finds (inspectList (map g xs)) (list_ex b xs)" by auto
  from finds_comp[OF this] show ?case by (simp add: inspectList_def)
qed

lemma finds_spec: "finds (find_spec s) (is_typespec ''Querier'' s)"
  by (cases s) (auto simp: finds_def find_spec_def is_typespec_def)

lemma list_ex_map_id: "list_ex (\<lambda>b. b) (map f xs) = list_ex f xs"
  by (induction xs) auto

lemma finds_walk:
  "finds (find_decl d) (declares_decl ''Querier'' d)"
  "finds (find_stmt s) (declares_stmt ''Querier'' s)"
proof (induction d and s)
  case (GenDecl specs)
  show ?case using finds_inspectList[of specs find_spec "is_typespec ''Querier''"] finds_spec
    by simp
next
  case (FuncDecl recv fname tp body)
  show ?case
  proof (cases body)
    case None
    then show ?thesis by (simp add: finds_id)
  next
    case (Some ss)
    with FuncDecl have "\<forall>x\<in>set ss. finds (find_stmt x) (declares_stmt ''Querier'' x)" by auto
    from finds_inspectList[OF this] Some show ?thesis by (simp add: list_ex_map_id)
  qed
next
  case (DeclStmt d)
  then show ?case by simp
next
  case (BlockStmt ss)
  then have "\<forall>x\<in>set ss. finds (find_stmt x) (declares_stmt ''Querier'' x)" by auto
  from finds_inspectList[OF this] show ?case by (simp add: list_ex_map_id)
next
  case (IfStmt body els)
  then have "\<forall>x\<in>set body. finds (find_stmt x) (declares_stmt ''Querier'' x)" by auto
  from finds_inspectList[OF this]
  have b: "finds (inspectList (map find_stmt body)) (list_ex (declares_stmt ''Querier'') body)" .
  show ?case
  proof (cases els)
    case None
    with b show ?thesis by (simp add: list_ex_map_id finds_def)
  next
    case (Some e)
    with IfStmt have "finds (find_stmt e) (declares_stmt ''Querier'' e)" by auto
    from finds_comp[OF b this] Some show ?thesis by (simp add: list_ex_map_id)
  qed
next
  case (ForStmt body)
  then have "\<forall>x\<in>set body. finds (find_stmt x) (declares_stmt ''Querier'' x)" by auto
  from finds_inspectList[OF this] show ?case by (simp add: list_ex_map_id)
next
  case ReturnStmt
  then show ?case by (simp add: finds_id)
qed

lemma find_querier_None: "(find_querier file = None) = (\<not> declares_type ''Querier'' file)"
proof -
  have "finds (inspectList (map find_decl (Decls file))) (list_ex (declares_decl ''Querier'') (Decls file))"
    by (rule finds_inspectList) (simp add: finds_walk)
  then show ?thesis by (simp add: finds_def find_querier_def declares_type_def)
qed

lemma imports_loop_error: "imports_loop w l acc = Inl e \<Longrightarrow> e \<noteq> ErrNoQuerier"
  by (induction l arbitrary: acc) (auto simp: Let_def split: sum.splits)

lemma findOutputModule_error:
  "findOutputModule w out opts = Returns (out', Some e) \<Longrightarrow> e \<noteq> ErrNoQuerier"
  by (auto simp: findOutputModule_def Let_def split: sum.splits option.splits)

lemma Parse_no_querier:
  assumes "parser_ParseFile w (InputFile opts) = Inr file"
  shows "(Parse w opts = Returns (Inl ErrNoQuerier)) = (find_querier file = None)"
proof
  assume "find_querier file = None"
  with assms show "Parse w opts = Returns (Inl ErrNoQuerier)" by (simp add: Parse_def)
next
  assume p: "Parse w opts = Returns (Inl ErrNoQuerier)"
  show "find_querier file = None"
  proof (rule ccontr)
    assume "find_querier file \<noteq> None"
    then obtain q where q: "find_querier file = Some q" by auto
    from p assms q show False
      by (auto simp: Parse_def Let_def split: sum.splits outcome.splits option.splits prod.splits
          dest: imports_loop_error findOutputModule_error)
  qed
qed

text \<open>
  Claim C10: \<^verbatim>\<open>Parse\<close> returns the error \<^verbatim>\<open>ErrNoQuerier\<close> exactly when the parsed file
  holds no type declaration named \<^verbatim>\<open>Querier\<close> at any depth.  A declaration of that
  name is the target whatever its type is, an interface or not.
\<close>

theorem no_querier_error_iff:
  "(parser_ParseFile w (InputFile opts) = Inr src \<longrightarrow>
      (Parse w opts = Returns (Inl ErrNoQuerier)) = (\<not> declares_type ''Querier'' src))
   \<and> find_querier \<lparr>File.Name = pkg,
                    Decls = [GenDecl [TypeSpecNode \<lparr>TypeSpec.Name = ''Querier'', TypeSpec.Type = t\<rparr>]],
                    File.Imports = imps\<rparr>
       = Some \<lparr>TypeSpec.Name = ''Querier'', TypeSpec.Type = t\<rparr>"
  by (simp add: Parse_no_querier find_querier_None)
     (simp add: find_querier_def inspectList_def find_spec_def)

theorem no_querier_error_iff_witness:
  "parser_ParseFile example_world ''/home/u/proj/internal/db/store.go'' = Inr store_file
   \<and> \<not> declares_type ''Querier'' store_file
   \<and> Parse example_world (example_flags\<lparr>InputFile := ''/home/u/proj/internal/db/store.go''\<rparr>)
       = Returns (Inl ErrNoQuerier)
   \<and> declares_type ''Querier'' nested_file
   \<and> Parse (example_world\<lparr>parser_ParseFile := \<lambda>path. Inr nested_file\<rparr>) example_flags
       \<noteq> Returns (Inl ErrNoQuerier)"
proof -
  have p: "parser_ParseFile example_world
             (InputFile (example_flags\<lparr>InputFile := ''/home/u/proj/internal/db/store.go''\<rparr>))
           = Inr store_file"
    by (simp add: example_world_def)
  have d: "\<not> declares_type ''Querier'' store_file"
    by (simp add: declares_type_def store_file_def is_typespec_def)
  have n: "declares_type ''Querier'' nested_file"
    by (simp add: declares_type_def nested_file_def is_typespec_def)
  note a = no_querier_error_iff
         [where w = example_world
            and opts = "example_flags\<lparr>InputFile := ''/home/u/proj/internal/db/store.go''\<rparr>"
            and src = store_file]
  note b = no_querier_error_iff
         [where w = "example_world\<lparr>parser_ParseFile := \<lambda>path. Inr nested_file\<rparr>"
            and opts = example_flags and src = nested_file]
  from a p d have "Parse example_world (example_flags\<lparr>InputFile := ''/home/u/proj/internal/db/store.go''\<rparr>)
       = Returns (Inl ErrNoQuerier)" by simp
  moreover from b n have "Parse (example_world\<lparr>parser_ParseFile := \<lambda>path. Inr nested_file\<rparr>) example_flags
       \<noteq> Returns (Inl ErrNoQuerier)" by simp
  ultimately show ?thesis using p d n by simp
qed
text \<open>
  Claim C5: when the parsed file declares no \<^verbatim>\<open>Querier\<close>, \<^verbatim>\<open>Parse\<close> fails with
  \<^verbatim>\<open>ErrNoQuerier\<close>, \<^verbatim>\<open>run\<close> returns that error without a call of \<^verbatim>\<open>os.WriteFile\<close>,
  and \<^verbatim>\<open>main\<close> prints it and exits with status 1.
\<close>

theorem no_querier_no_output:
  assumes "parser_ParseFile w arg = Inr src" and "\<not> declares_type ''Querier'' src"
  shows "Parse w (flags\<lparr>InputFile := arg\<rparr>) = Returns (Inl ErrNoQuerier)
         \<and> run w flags (arg # args) = Returns (Some ErrNoQuerier, [])
         \<and> main w flags (arg # args) = (Exit 1 (Some ErrNoQuerier) True, [])"
proof -
  have "Parse w (flags\<lparr>InputFile := arg\<rparr>) = Returns (Inl ErrNoQuerier)"
    using assms Parse_no_querier[of w "flags\<lparr>InputFile := arg\<rparr>" src] find_querier_None[of src]
    by simp
  then show ?thesis by (simp add: run_def main_def)
qed


theorem no_querier_no_output_witness:
  "run example_world example_flags [''/home/u/proj/internal/db/store.go'']
     = Returns (Some ErrNoQuerier, [])
   \<and> main example_world example_flags [''/home/u/proj/internal/db/store.go'']
     = (Exit 1 (Some ErrNoQuerier) True, [])"
proof -
  have p: "parser_ParseFile example_world ''/home/u/proj/internal/db/store.go'' = Inr store_file"
    by (simp add: example_world_def)
  have d: "\<not> declares_type ''Querier'' store_file"
    by (simp add: declares_type_def store_file_def is_typespec_def)
  from no_querier_no_output[OF p d, of example_flags "[]"]
  show ?thesis by simp
qed

section \<open>Fatal errors\<close>

text \<open>
  Claim C3 says that every fatal error is returned up to \<^verbatim>\<open>main\<close> and that no stage
  ends the process.  It fails for a source file that does not parse: \<^verbatim>\<open>Parse\<close> itself
  calls \<^verbatim>\<open>log.Fatal\<close>, and \<^verbatim>\<open>run\<close> never returns.
\<close>

theorem unparsable_source_exits_in_Parse:
  "Parse unparsable_world (example_flags\<lparr>InputFile := ''querier.go''\<rparr>)
     = LogFatal (Lib ''querier.go:1:1: expected package'')
   \<and> run unparsable_world example_flags [''querier.go'']
     = LogFatal (Lib ''querier.go:1:1: expected package'')
   \<and> run unparsable_world example_flags [''querier.go'']
     \<noteq> Returns (Some (Lib ''querier.go:1:1: expected package''), [])
   \<and> main unparsable_world example_flags [''querier.go'']
     = (Exit 1 (Some (Lib ''querier.go:1:1: expected package'')) False, [])"
  by (simp add: unparsable_world_def Parse_def run_def main_def)

text \<open>
  Claim C3, amended: a source file that cannot be read or parsed, a template with
  invalid syntax and a failing execution of the template end the process inside
  \<^verbatim>\<open>Parse\<close> or \<^verbatim>\<open>Render\<close>, which print the error and exit with status 1.  Every error
  that \<^verbatim>\<open>Parse\<close> or \<^verbatim>\<open>Render\<close> returns is returned unchanged by \<^verbatim>\<open>run\<close>, which writes
  nothing, and \<^verbatim>\<open>main\<close> prints it and exits with status 1.
\<close>

theorem stages_exit_the_process:
  "(parser_ParseFile w (InputFile opts) = Inl e \<longrightarrow> Parse w opts = LogFatal (Lib e))
   \<and> ((TemplateFile opts = [] \<and> c = defaultTpl w
        \<or> TemplateFile opts \<noteq> [] \<and> os_ReadFile w (TemplateFile opts) = Inr c) \<longrightarrow>
         (template_Parse w c = Inl e \<longrightarrow> Render w out opts = LogFatal (Lib e))
       \<and> (template_Parse w c = Inr tpl \<and> tpl out = Inl e \<longrightarrow>
            Render w out opts = LogFatal (Lib e)))
   \<and> (Parse w (flags\<lparr>InputFile := arg\<rparr>) = LogFatal err \<longrightarrow>
        run w flags (arg # args) = LogFatal err)
   \<and> (Parse w (flags\<lparr>InputFile := arg\<rparr>) = Returns (Inr out)
        \<and> Render w out (flags\<lparr>InputFile := arg\<rparr>) = LogFatal err \<longrightarrow>
        run w flags (arg # args) = LogFatal err)
   \<and> (Parse w (flags\<lparr>InputFile := arg\<rparr>) = Returns (Inl err) \<longrightarrow>
        run w flags (arg # args) = Returns (Some err, []))
   \<and> (Parse w (flags\<lparr>InputFile := arg\<rparr>) = Returns (Inr out)
        \<and> Render w out (flags\<lparr>InputFile := arg\<rparr>) = Returns (Inl err) \<longrightarrow>
        run w flags (arg # args) = Returns (Some err, []))
   \<and> (run w flags args' = LogFatal err \<longrightarrow> main w flags args' = (Exit 1 (Some err) False, []))
   \<and> (run w flags args' = Returns (Some err, written) \<longrightarrow>
        main w flags args' = (Exit 1 (Some err) True, written))"
  by (auto simp: Parse_def Render_def run_def main_def)

theorem stages_exit_the_process_witness:
  "run unparsable_world example_flags [''querier.go'']
     = LogFatal (Lib ''querier.go:1:1: expected package'')
   \<and> main unparsable_world example_flags [''querier.go'']
     = (Exit 1 (Some (Lib ''querier.go:1:1: expected package'')) False, [])
   \<and> Render (example_world\<lparr>template_Parse := \<lambda>c. Inl ''template: mock:1: unexpected EOF''\<rparr>)
        example_output example_flags
     = LogFatal (Lib ''template: mock:1: unexpected EOF'')"
proof -
  have p: "parser_ParseFile unparsable_world
             (InputFile (example_flags\<lparr>InputFile := ''querier.go''\<rparr>))
           = Inl ''querier.go:1:1: expected package''"
    by (simp add: unparsable_world_def)
  note a = stages_exit_the_process
         [where w = unparsable_world and opts = "example_flags\<lparr>InputFile := ''querier.go''\<rparr>"
            and e = "''querier.go:1:1: expected package''" and flags = example_flags
            and arg = "''querier.go''" and args = "[]" and args' = "[''querier.go'']"
            and err = "Lib ''querier.go:1:1: expected package''"]
  have t: "TemplateFile example_flags = []"
    by (simp add: example_flags_def)
  note b = stages_exit_the_process
         [where w = "example_world\<lparr>template_Parse := \<lambda>c. Inl ''template: mock:1: unexpected EOF''\<rparr>"
            and opts = example_flags and e = "''template: mock:1: unexpected EOF''"
            and c = "defaultTpl example_world" and out = example_output]
  from a p have "run unparsable_world example_flags [''querier.go'']
     = LogFatal (Lib ''querier.go:1:1: expected package'')
   \<and> main unparsable_world example_flags [''querier.go'']
     = (Exit 1 (Some (Lib ''querier.go:1:1: expected package'')) False, [])"
    by simp
  moreover from b t have "Render (example_world\<lparr>template_Parse := \<lambda>c. Inl ''template: mock:1: unexpected EOF''\<rparr>)
        example_output example_flags
     = LogFatal (Lib ''template: mock:1: unexpected EOF'')"
    by simp
  ultimately show ?thesis by simp
qed


section \<open>Properties of the module resolver\<close>

lemma split_single: "CHR ''/'' \<notin> set x \<Longrightarrow> split_sep x = [x]"
  by (induction x) auto

lemma split_append: "CHR ''/'' \<notin> set x \<Longrightarrow> split_sep (x @ CHR ''/'' # y) = x # split_sep y"
  by (induction x) auto


lemma split_join:
  "es \<noteq> [] \<Longrightarrow> list_all real_elem es \<Longrightarrow> split_sep (join_sep es) = es"
proof (induction es rule: join_sep.induct)
  case 1
  then show ?case by simp
next
  case (2 x)
  then show ?case by (simp add: split_single real_elem_def)
next
  case (3 x y ys)
  then show ?case by (simp add: split_append real_elem_def)
qed

lemma foldl_real: "list_all real_elem es \<Longrightarrow> foldl (clean_step r) acc es = acc @ es"
  by (induction es arbitrary: acc) (auto simp: clean_step_def real_elem_def)

lemma Clean_abs: "list_all real_elem es \<Longrightarrow> Clean (abs_of es) = abs_of es"
proof (cases "es = []")
  case True
  then show ?thesis by (simp add: abs_of_def Clean_def clean_step_def)
next
  case False
  assume r: "list_all real_elem es"
  have "split_sep (abs_of es) = [] # es"
    using split_join[OF False r] by (simp add: abs_of_def)
  then show ?thesis using foldl_real[OF r, of True "[]"]
    by (simp add: Clean_def abs_of_def clean_step_def)
qed























end
